theory Spec2Isabelle
  imports Complex_Main
begin

section \<open>JavaScript numbers\<close>

text \<open>
  The backend (\<^verbatim>\<open>backend/index.js\<close>) and the frontend (\<^verbatim>\<open>frontend/src/App.jsx\<close>)
  compute with JavaScript numbers, that is IEEE-754 binary64 values. A number is modelled
  as a finite real (meant to be a representable double), one of the two infinities, or NaN.
  Every arithmetic operation computes the exact real result and rounds it to the nearest
  double, ties to even, overflowing to an infinity (\<open>to_double\<close>).

  The two zeros \<open>+0\<close> and \<open>-0\<close> are identified: they are equal under \<^verbatim>\<open>===\<close>, \<^verbatim>\<open><\<close> and
  truthiness, and the modelled code never divides by a zero (every division is by
  \<^verbatim>\<open>100\<close> or is guarded by a test of its divisor).
\<close>

datatype jsnum = Fin real | PInf | NInf | NaN

text \<open>
  The exponent of the binade of a positive real: the \<open>e\<close> with \<open>2\<^sup>e \<le> x < 2\<^sup>e\<^sup>+\<^sup>1\<close>,
  not below \<open>-1022\<close> (the subnormal range shares the exponent of the smallest normal
  binade) and, for \<open>x < 2\<^sup>1\<^sup>0\<^sup>2\<^sup>4\<close>, not above \<open>1023\<close>. It is found by halving \<open>x \<ge> 1\<close>
  until it is below \<open>2\<close>, at most 1023 times, or by doubling \<open>x < 1\<close> until it reaches
  \<open>1\<close>, at most 1022 times (\<open>binade_spec\<close> and \<open>binade_subnormal\<close> below).
\<close>

primrec expo_up :: "nat \<Rightarrow> real \<Rightarrow> int" where
  "expo_up 0 x = 0"
| "expo_up (Suc n) x = (if x < 2 then 0 else expo_up n (x / 2) + 1)"

primrec expo_down :: "nat \<Rightarrow> real \<Rightarrow> int" where
  "expo_down 0 x = 0"
| "expo_down (Suc n) x = (if 1 \<le> x then 0 else expo_down n (2 * x) - 1)"

definition binade :: "real \<Rightarrow> int" where
  "binade x = (if 1 \<le> x then expo_up 1024 x else expo_down 1022 x)"

text \<open>
  Rounding to the nearest integer, ties to the even one; the unit in the last place of
  the binade of \<open>x\<close> (a significand has 53 bits); and the rounding of a positive real to
  a multiple of its unit.
\<close>

definition round_half_even :: "real \<Rightarrow> int" where
  "round_half_even m =
     (let f = \<lfloor>m\<rfloor>; d = m - of_int f
      in if d < 1 / 2 then f
         else if 1 / 2 < d then f + 1
         else if even f then f else f + 1)"

definition ulp :: "real \<Rightarrow> real" where
  "ulp x = 2 powi (binade x - 52)"

definition round_mag :: "real \<Rightarrow> real" where
  "round_mag x = of_int (round_half_even (x / ulp x)) * ulp x"

text \<open>
  The double nearest to a real. A magnitude that is, or rounds to, \<open>2\<^sup>1\<^sup>0\<^sup>2\<^sup>4\<close> or more
  overflows to an infinity.
\<close>

definition to_double :: "real \<Rightarrow> jsnum" where
  "to_double x =
     (if x = 0 then Fin 0
      else if 2 ^ 1024 \<le> \<bar>x\<bar> \<or> 2 ^ 1024 \<le> round_mag \<bar>x\<bar>
        then (if 0 < x then PInf else NInf)
      else Fin (sgn x * round_mag \<bar>x\<bar>))"

text \<open>A value of the model is a JavaScript number when rounding leaves it unchanged.\<close>

definition is_double :: "jsnum \<Rightarrow> bool" where
  "is_double v = (case v of Fin x \<Rightarrow> to_double x = Fin x | _ \<Rightarrow> True)"

text \<open>
  The operators \<^verbatim>\<open>+\<close>, \<^verbatim>\<open>-\<close>, \<^verbatim>\<open>*\<close> and \<^verbatim>\<open>/\<close> on numbers: the exact result rounded for
  finite operands, and the IEEE-754 rules for infinities and NaN. They become the
  operators of the type \<open>jsnum\<close>, so that the model reads as the source does.
\<close>

fun js_neg :: "jsnum \<Rightarrow> jsnum" where
  "js_neg (Fin a) = Fin (- a)"
| "js_neg PInf = NInf"
| "js_neg NInf = PInf"
| "js_neg NaN = NaN"

fun js_add :: "jsnum \<Rightarrow> jsnum \<Rightarrow> jsnum" where
  "js_add (Fin a) (Fin b) = to_double (a + b)"
| "js_add NaN _ = NaN"
| "js_add _ NaN = NaN"
| "js_add PInf NInf = NaN"
| "js_add NInf PInf = NaN"
| "js_add PInf _ = PInf"
| "js_add _ PInf = PInf"
| "js_add NInf _ = NInf"
| "js_add _ NInf = NInf"

definition js_sub :: "jsnum \<Rightarrow> jsnum \<Rightarrow> jsnum" where
  "js_sub a b = js_add a (js_neg b)"

definition signed_inf :: "bool \<Rightarrow> jsnum" where
  "signed_inf positive = (if positive then PInf else NInf)"

fun js_mul :: "jsnum \<Rightarrow> jsnum \<Rightarrow> jsnum" where
  "js_mul (Fin a) (Fin b) = to_double (a * b)"
| "js_mul NaN _ = NaN"
| "js_mul _ NaN = NaN"
| "js_mul PInf (Fin b) = (if b = 0 then NaN else signed_inf (0 < b))"
| "js_mul NInf (Fin b) = (if b = 0 then NaN else signed_inf (b < 0))"
| "js_mul (Fin a) PInf = (if a = 0 then NaN else signed_inf (0 < a))"
| "js_mul (Fin a) NInf = (if a = 0 then NaN else signed_inf (a < 0))"
| "js_mul PInf PInf = PInf"
| "js_mul NInf NInf = PInf"
| "js_mul PInf NInf = NInf"
| "js_mul NInf PInf = NInf"

fun js_div :: "jsnum \<Rightarrow> jsnum \<Rightarrow> jsnum" where
  "js_div (Fin a) (Fin b) =
     (if b = 0 then (if a = 0 then NaN else signed_inf (0 < a)) else to_double (a / b))"
| "js_div NaN _ = NaN"
| "js_div _ NaN = NaN"
| "js_div (Fin a) PInf = Fin 0"
| "js_div (Fin a) NInf = Fin 0"
| "js_div PInf (Fin b) = signed_inf (0 \<le> b)"
| "js_div NInf (Fin b) = signed_inf (b < 0)"
| "js_div PInf PInf = NaN"
| "js_div PInf NInf = NaN"
| "js_div NInf PInf = NaN"
| "js_div NInf NInf = NaN"

text \<open>\<^verbatim>\<open>a < b\<close> and \<^verbatim>\<open>a <= b\<close>: false as soon as an operand is NaN.\<close>

fun js_less :: "jsnum \<Rightarrow> jsnum \<Rightarrow> bool" where
  "js_less (Fin a) (Fin b) = (a < b)"
| "js_less NaN _ = False"
| "js_less _ NaN = False"
| "js_less _ NInf = False"
| "js_less PInf _ = False"
| "js_less NInf _ = True"
| "js_less _ PInf = True"

fun js_le :: "jsnum \<Rightarrow> jsnum \<Rightarrow> bool" where
  "js_le (Fin a) (Fin b) = (a \<le> b)"
| "js_le NaN _ = False"
| "js_le _ NaN = False"
| "js_le NInf _ = True"
| "js_le _ PInf = True"
| "js_le _ NInf = False"
| "js_le PInf _ = False"

instantiation jsnum :: "{plus, minus, times, inverse, ord}"
begin

definition plus_jsnum :: "jsnum \<Rightarrow> jsnum \<Rightarrow> jsnum" where
  "plus_jsnum a b = js_add a b"

definition minus_jsnum :: "jsnum \<Rightarrow> jsnum \<Rightarrow> jsnum" where
  "minus_jsnum a b = js_sub a b"

definition times_jsnum :: "jsnum \<Rightarrow> jsnum \<Rightarrow> jsnum" where
  "times_jsnum a b = js_mul a b"

definition divide_jsnum :: "jsnum \<Rightarrow> jsnum \<Rightarrow> jsnum" where
  "divide_jsnum a b = js_div a b"

definition inverse_jsnum :: "jsnum \<Rightarrow> jsnum" where
  "inverse_jsnum a = js_div (Fin 1) a"

definition less_jsnum :: "jsnum \<Rightarrow> jsnum \<Rightarrow> bool" where
  "less_jsnum a b = js_less a b"

definition less_eq_jsnum :: "jsnum \<Rightarrow> jsnum \<Rightarrow> bool" where
  "less_eq_jsnum a b = js_le a b"

instance ..

end

text \<open>\<^verbatim>\<open>Number.isFinite\<close> on a number, and the truthiness of a number.\<close>

definition isFinite :: "jsnum \<Rightarrow> bool" where
  "isFinite v = (case v of Fin _ \<Rightarrow> True | _ \<Rightarrow> False)"

definition truthy :: "jsnum \<Rightarrow> bool" where
  "truthy v = (v \<noteq> Fin 0 \<and> v \<noteq> NaN)"

text \<open>
  \<^verbatim>\<open>Math.pow\<close>, following the cases of ECMAScript's \<open>Number::exponentiate\<close>. Where the
  standard asks for an implementation-approximated value (both operands finite and
  non-zero), the value is the engine's and not fixed by the language: it is the parameter
  \<open>pow_approx\<close>. Two cases are written out, in which the power is itself a double and
  engines return it: \<open>1\<^sup>y = 1\<close> and \<open>x\<^sup>1 = x\<close>.
\<close>

definition is_integral :: "real \<Rightarrow> bool" where
  "is_integral y = (y = of_int \<lfloor>y\<rfloor>)"

fun Math_pow :: "(real \<Rightarrow> real \<Rightarrow> jsnum) \<Rightarrow> jsnum \<Rightarrow> jsnum \<Rightarrow> jsnum" where
  "Math_pow pow_approx b NaN = NaN"
| "Math_pow pow_approx b (Fin y) =
     (if y = 0 then Fin 1
      else case b of
        NaN \<Rightarrow> NaN
      | PInf \<Rightarrow> (if 0 < y then PInf else Fin 0)
      | NInf \<Rightarrow> (if 0 < y then (if is_integral y \<and> odd \<lfloor>y\<rfloor> then NInf else PInf) else Fin 0)
      | Fin x \<Rightarrow>
          (if x = 0 then (if 0 < y then Fin 0 else PInf)
           else if x < 0 \<and> \<not> is_integral y then NaN
           else if x = 1 then Fin 1
           else if y = 1 then Fin x
           else pow_approx x y))"
| "Math_pow pow_approx b PInf =
     (case b of
        NaN \<Rightarrow> NaN
      | Fin x \<Rightarrow> (if 1 < \<bar>x\<bar> then PInf else if \<bar>x\<bar> = 1 then NaN else Fin 0)
      | _ \<Rightarrow> PInf)"
| "Math_pow pow_approx b NInf =
     (case b of
        NaN \<Rightarrow> NaN
      | Fin x \<Rightarrow> (if 1 < \<bar>x\<bar> then Fin 0 else if \<bar>x\<bar> = 1 then NaN else PInf)
      | _ \<Rightarrow> Fin 0)"

text \<open>
  One admissible engine, used where a concrete one is needed: the correctly rounded power
  (an integer power when the exponent is integral, the real \<open>powr\<close> otherwise).
\<close>

definition exact_pow :: "real \<Rightarrow> real \<Rightarrow> real" where
  "exact_pow x y = (if is_integral y then x powi \<lfloor>y\<rfloor> else x powr y)"

definition rounded_pow :: "real \<Rightarrow> real \<Rightarrow> jsnum" where
  "rounded_pow x y = to_double (exact_pow x y)"

section \<open>JavaScript values and \<^verbatim>\<open>Number(...)\<close>\<close>

text \<open>
  The values a JSON request body or a form field can hold. An absent field
  (\<^verbatim>\<open>undefined\<close>) is \<open>None\<close> of the option type.
\<close>

datatype jsval =
    JNull
  | JBool bool
  | JNumber jsnum
  | JString string
  | JArray "jsval list"
  | JObject "(string \<times> jsval) list"

text \<open>
  \<^verbatim>\<open>Number(v)\<close>. The conversion of strings, arrays and objects (the language's
  \<open>StringToNumber\<close> grammar, after \<open>ToPrimitive\<close>) is the parameter \<open>conv\<close>.
\<close>

definition js_Number :: "(jsval \<Rightarrow> jsnum) \<Rightarrow> jsval option \<Rightarrow> jsnum" where
  "js_Number conv v =
     (case v of
        None \<Rightarrow> NaN
      | Some JNull \<Rightarrow> Fin 0
      | Some (JBool b) \<Rightarrow> Fin (if b then 1 else 0)
      | Some (JNumber n) \<Rightarrow> n
      | Some w \<Rightarrow> conv w)"

section \<open>Frontend: \<^verbatim>\<open>frontend/src/App.jsx\<close>\<close>

text \<open>\<^verbatim>\<open>const annuityFactor = r === 0 ? years : (Math.pow(1 + r, years) - 1) / r\<close>\<close>

definition annuityFactor :: "(real \<Rightarrow> real \<Rightarrow> jsnum) \<Rightarrow> jsnum \<Rightarrow> jsnum \<Rightarrow> jsnum" where
  "annuityFactor pow_approx r years =
     (if r = Fin 0 then years else (Math_pow pow_approx (Fin 1 + r) years - Fin 1) / r)"

text \<open>
  \<^verbatim>\<open>computeProjection({age, retirementAge, annualReturn, currentBalance, salary,
  contributionPercent})\<close>. The four fields tested with \<^verbatim>\<open>== null\<close> are options
  (\<open>None\<close> is \<^verbatim>\<open>null\<close> or \<^verbatim>\<open>undefined\<close>); the result \<open>None\<close> is \<^verbatim>\<open>null\<close>. The first
  argument is the engine's \<^verbatim>\<open>Math.pow\<close> approximation.
\<close>

definition computeProjection ::
  "(real \<Rightarrow> real \<Rightarrow> jsnum) \<Rightarrow> jsnum option \<Rightarrow> jsnum option \<Rightarrow> jsnum \<Rightarrow> jsnum option
     \<Rightarrow> jsnum option \<Rightarrow> jsnum \<Rightarrow> jsnum option" where
  "computeProjection pow_approx age retirementAge annualReturn currentBalance salary
       contributionPercent =
     (case (age, retirementAge, salary, currentBalance) of
        (Some age', Some retirementAge', Some salary', Some currentBalance') \<Rightarrow>
          (let years = retirementAge' - age';
               r = annualReturn;
               yearlyContribution = salary' * (contributionPercent / Fin 100)
           in if years \<le> Fin 0 then Some (currentBalance' + yearlyContribution)
              else
                (let futureBalance = currentBalance' * Math_pow pow_approx (Fin 1 + r) years;
                     futureContributions = yearlyContribution * annuityFactor pow_approx r years
                 in Some (futureBalance + futureContributions)))
      | _ \<Rightarrow> None)"

text \<open>
  The three memoised values of the component, as functions of their dependencies.
  \<open>salary\<close> and \<open>payPeriods\<close> are \<^verbatim>\<open>null\<close> (\<open>None\<close>) until the data is loaded;
  \<^verbatim>\<open>!salary\<close> holds for \<^verbatim>\<open>null\<close>, \<^verbatim>\<open>0\<close> and \<^verbatim>\<open>NaN\<close>. They are defined last to first, so
  that each keeps the source's names for its dependencies.
\<close>

definition falsy :: "jsnum option \<Rightarrow> bool" where
  "falsy v = (case v of None \<Rightarrow> True | Some n \<Rightarrow> \<not> truthy n)"

definition yearlyContribution :: "jsnum \<Rightarrow> jsnum option \<Rightarrow> jsnum" where
  "yearlyContribution perPaycheckDollar payPeriods =
     (case payPeriods of
        Some payPeriods' \<Rightarrow>
          (if falsy payPeriods then Fin 0 else perPaycheckDollar * payPeriods')
      | None \<Rightarrow> Fin 0)"

definition perPaycheckDollar :: "bool \<Rightarrow> jsnum \<Rightarrow> jsnum option \<Rightarrow> jsnum option \<Rightarrow> jsnum" where
  "perPaycheckDollar isPercent numericContribution salary payPeriods =
     (case (salary, payPeriods) of
        (Some salary', Some payPeriods') \<Rightarrow>
          (if falsy salary \<or> falsy payPeriods then Fin 0
           else if isPercent then (salary' * (numericContribution / Fin 100)) / payPeriods'
           else numericContribution)
      | _ \<Rightarrow> Fin 0)"

definition livePercent :: "bool \<Rightarrow> jsnum \<Rightarrow> jsnum option \<Rightarrow> jsnum option \<Rightarrow> jsnum" where
  "livePercent isPercent numericContribution salary payPeriods =
     (if isPercent then numericContribution
      else case (salary, payPeriods) of
        (Some salary', Some payPeriods') \<Rightarrow>
          (if falsy salary \<or> falsy payPeriods then Fin 0
           else (let yearlyDollar = numericContribution * payPeriods'
                 in (yearlyDollar / salary') * Fin 100))
      | _ \<Rightarrow> Fin 0)"

text \<open>\<^verbatim>\<open>const numericContribution = Number(contributionValue) || 0\<close>\<close>

definition numericContribution :: "(jsval \<Rightarrow> jsnum) \<Rightarrow> jsval \<Rightarrow> jsnum" where
  "numericContribution conv contributionValue =
     (let n = js_Number conv (Some contributionValue) in if truthy n then n else Fin 0)"

section \<open>Backend: \<^verbatim>\<open>backend/index.js\<close>\<close>

record contributionState =
  userId :: string
  age :: jsnum
  salary :: jsnum
  payPeriodsPerYear :: jsnum
  ytdContribution :: jsnum
  contributionType :: string
  contributionValue :: jsnum
  currentBalance :: jsnum

definition initialState :: contributionState where
  "initialState =
     \<lparr> userId = ''mock-user-123'',
       age = Fin 30,
       salary = Fin 120000,
       payPeriodsPerYear = Fin 24,
       ytdContribution = Fin 8500,
       contributionType = ''percent'',
       contributionValue = Fin 10,
       currentBalance = Fin 15000 \<rparr>"

text \<open>The \<^verbatim>\<open>currentPercent\<close> of the \<^verbatim>\<open>GET /api/contribution\<close> handler.\<close>

definition currentPercent :: "contributionState \<Rightarrow> jsnum" where
  "currentPercent st =
     (if contributionType st = ''percent'' then contributionValue st
      else if Fin 0 < salary st \<and> Fin 0 < payPeriodsPerYear st then
        (let yearlyDollar = contributionValue st * payPeriodsPerYear st
         in (yearlyDollar / salary st) * Fin 100)
      else Fin 0)"

text \<open>
  \<^verbatim>\<open>POST /api/contribution\<close>. The request body is a JSON object, a map from field
  names to values. The handler returns the new stored state and its response: status 400
  with an error message, or status 200 with the stored state.
\<close>

datatype response = Status400 string | Status200 contributionState

text \<open>
  The five blocks that update an optional snapshot field of \<^verbatim>\<open>nextState\<close>, one state
  transformer for each, in the order of the handler:
  \<^verbatim>\<open>if (age !== undefined) { const ageNum = Number(age); if (...) nextState.age = ageNum; }\<close>
\<close>

definition update_age ::
  "(jsval \<Rightarrow> jsnum) \<Rightarrow> (string \<rightharpoonup> jsval) \<Rightarrow> contributionState \<Rightarrow> contributionState" where
  "update_age conv body nextState =
     (case body ''age'' of
        None \<Rightarrow> nextState
      | Some _ \<Rightarrow>
          (let ageNum = js_Number conv (body ''age'')
           in if isFinite ageNum \<and> Fin 0 < ageNum \<and> ageNum < Fin 100
                then nextState\<lparr> age := ageNum \<rparr> else nextState))"

definition update_salary ::
  "(jsval \<Rightarrow> jsnum) \<Rightarrow> (string \<rightharpoonup> jsval) \<Rightarrow> contributionState \<Rightarrow> contributionState" where
  "update_salary conv body nextState =
     (case body ''salary'' of
        None \<Rightarrow> nextState
      | Some _ \<Rightarrow>
          (let salaryNum = js_Number conv (body ''salary'')
           in if isFinite salaryNum \<and> Fin 0 \<le> salaryNum
                then nextState\<lparr> salary := salaryNum \<rparr> else nextState))"

definition update_ytdContribution ::
  "(jsval \<Rightarrow> jsnum) \<Rightarrow> (string \<rightharpoonup> jsval) \<Rightarrow> contributionState \<Rightarrow> contributionState" where
  "update_ytdContribution conv body nextState =
     (case body ''ytdContribution'' of
        None \<Rightarrow> nextState
      | Some _ \<Rightarrow>
          (let ytdNum = js_Number conv (body ''ytdContribution'')
           in if isFinite ytdNum \<and> Fin 0 \<le> ytdNum
                then nextState\<lparr> ytdContribution := ytdNum \<rparr> else nextState))"

definition update_currentBalance ::
  "(jsval \<Rightarrow> jsnum) \<Rightarrow> (string \<rightharpoonup> jsval) \<Rightarrow> contributionState \<Rightarrow> contributionState" where
  "update_currentBalance conv body nextState =
     (case body ''currentBalance'' of
        None \<Rightarrow> nextState
      | Some _ \<Rightarrow>
          (let balNum = js_Number conv (body ''currentBalance'')
           in if isFinite balNum \<and> Fin 0 \<le> balNum
                then nextState\<lparr> currentBalance := balNum \<rparr> else nextState))"

definition update_payPeriodsPerYear ::
  "(jsval \<Rightarrow> jsnum) \<Rightarrow> (string \<rightharpoonup> jsval) \<Rightarrow> contributionState \<Rightarrow> contributionState" where
  "update_payPeriodsPerYear conv body nextState =
     (case body ''payPeriodsPerYear'' of
        None \<Rightarrow> nextState
      | Some _ \<Rightarrow>
          (let ppNum = js_Number conv (body ''payPeriodsPerYear'')
           in if isFinite ppNum \<and> Fin 0 < ppNum \<and> ppNum \<le> Fin 52
                then nextState\<lparr> payPeriodsPerYear := ppNum \<rparr> else nextState))"

text \<open>
  The handler. On the four early returns the stored state is not assigned; otherwise
  \<^verbatim>\<open>nextState\<close> starts as the stored state with the request's type and value, goes
  through the five blocks, and is stored and returned.
\<close>

definition post_contribution ::
  "(jsval \<Rightarrow> jsnum) \<Rightarrow> contributionState \<Rightarrow> (string \<rightharpoonup> jsval) \<Rightarrow> contributionState \<times> response" where
  "post_contribution conv st body =
     (let ctype = body ''contributionType'';
          valueNum = js_Number conv (body ''contributionValue'')
      in if ctype \<notin> set [Some (JString ''percent''), Some (JString ''dollar'')]
           then (st, Status400 ''Invalid contributionType'')
         else if \<not> isFinite valueNum \<or> valueNum < Fin 0
           then (st, Status400 ''Invalid contributionValue'')
         else if ctype = Some (JString ''percent'') \<and> Fin 50 < valueNum
           then (st, Status400 ''Percent too high'')
         else if ctype = Some (JString ''dollar'') \<and> Fin 5000 < valueNum
           then (st, Status400 ''Dollar amount too high'')
         else
          (let nextState =
                 st\<lparr> contributionType :=
                       (case ctype of Some (JString t) \<Rightarrow> t | _ \<Rightarrow> contributionType st),
                     contributionValue := valueNum \<rparr>;
               nextState' =
                 update_payPeriodsPerYear conv body
                   (update_currentBalance conv body
                     (update_ytdContribution conv body
                       (update_salary conv body
                         (update_age conv body nextState))))
           in (nextState', Status200 nextState')))"

text \<open>
  The requests the handler answers with status 400, and the predicate on stored states
  that every request is meant to keep.
\<close>

definition rejected :: "(jsval \<Rightarrow> jsnum) \<Rightarrow> (string \<rightharpoonup> jsval) \<Rightarrow> bool" where
  "rejected conv body =
     (let ctype = body ''contributionType'';
          valueNum = js_Number conv (body ''contributionValue'')
      in ctype \<notin> set [Some (JString ''percent''), Some (JString ''dollar'')]
         \<or> \<not> isFinite valueNum \<or> valueNum < Fin 0
         \<or> (ctype = Some (JString ''percent'') \<and> Fin 50 < valueNum)
         \<or> (ctype = Some (JString ''dollar'') \<and> Fin 5000 < valueNum))"

definition well_formed :: "contributionState \<Rightarrow> bool" where
  "well_formed st =
     ((contributionType st = ''percent'' \<or> contributionType st = ''dollar'')
      \<and> isFinite (contributionValue st) \<and> Fin 0 \<le> contributionValue st
      \<and> (contributionType st = ''percent'' \<longrightarrow> contributionValue st \<le> Fin 50)
      \<and> (contributionType st = ''dollar'' \<longrightarrow> contributionValue st \<le> Fin 5000)
      \<and> isFinite (salary st) \<and> Fin 0 \<le> salary st
      \<and> isFinite (ytdContribution st) \<and> Fin 0 \<le> ytdContribution st
      \<and> isFinite (currentBalance st) \<and> Fin 0 \<le> currentBalance st
      \<and> Fin 0 < age st \<and> age st < Fin 100
      \<and> Fin 0 < payPeriodsPerYear st \<and> payPeriodsPerYear st \<le> Fin 52)"

section \<open>Properties of rounding\<close>

text \<open>
  \<open>binade\<close> finds the exponent it is meant to find, and \<open>to_double\<close> returns the
  multiple of the unit in the last place that lies within half a unit of its argument.
\<close>

lemma expo_up_spec:
  "1 \<le> x \<Longrightarrow> x < 2 ^ n \<Longrightarrow> 2 powi (expo_up n x) \<le> x \<and> x < 2 powi (expo_up n x + 1)"
proof (induction n arbitrary: x)
  case 0
  then show ?case by simp
next
  case (Suc n)
  show ?case
  proof (cases "x < 2")
    case True
    with Suc.prems show ?thesis by simp
  next
    case False
    then have "1 \<le> x / 2" and "x / 2 < 2 ^ n"
      using Suc.prems by simp_all
    from Suc.IH [OF this]
    have "2 powi (expo_up n (x / 2)) \<le> x / 2" and "x / 2 < 2 powi (expo_up n (x / 2) + 1)"
      by simp_all
    then show ?thesis
      using False by (simp add: power_int_add)
  qed
qed

lemma expo_down_spec:
  "0 < x \<Longrightarrow> x < 1 \<Longrightarrow> 1 \<le> x * 2 ^ n \<Longrightarrow>
     2 powi (expo_down n x) \<le> x \<and> x < 2 powi (expo_down n x + 1)"
proof (induction n arbitrary: x)
  case 0
  then show ?case by simp
next
  case (Suc n)
  show ?case
  proof (cases "1 \<le> 2 * x")
    case True
    have "expo_down (Suc n) x = expo_down n (2 * x) - 1"
      using Suc.prems by simp
    moreover have "expo_down n (2 * x) = 0"
      using True by (cases n) simp_all
    ultimately show ?thesis
      using True Suc.prems by (simp add: power_int_minus)
  next
    case False
    then have "0 < 2 * x" and "2 * x < 1" and "1 \<le> (2 * x) * 2 ^ n"
      using Suc.prems by (simp_all add: mult.assoc mult.left_commute)
    from Suc.IH [OF this]
    have "2 powi (expo_down n (2 * x)) \<le> 2 * x" and "2 * x < 2 powi (expo_down n (2 * x) + 1)"
      by simp_all
    then show ?thesis
      using Suc.prems by (simp add: power_int_diff power_int_add)
  qed
qed

lemma expo_down_floor: "0 < x \<Longrightarrow> x * 2 ^ n < 1 \<Longrightarrow> expo_down n x = - int n"
proof (induction n arbitrary: x)
  case 0
  then show ?case by simp
next
  case (Suc n)
  have "x < 1"
  proof (rule ccontr)
    assume "\<not> x < 1"
    then have "1 \<le> x" by simp
    moreover have "(1::real) \<le> 2 ^ Suc n" by (rule one_le_power) simp
    ultimately have "1 * 1 \<le> x * 2 ^ Suc n" by (intro mult_mono) simp_all
    with Suc.prems show False by simp
  qed
  moreover have "expo_down n (2 * x) = - int n"
    using Suc.prems by (intro Suc.IH) (simp_all add: mult.assoc mult.left_commute)
  ultimately show ?case by simp
qed

lemma two_powi_less_iff: "(2::real) powi m < 2 powi n \<longleftrightarrow> m < n"
proof
  assume "(2::real) powi m < 2 powi n"
  show "m < n"
  proof (rule ccontr)
    assume "\<not> m < n"
    then have "(2::real) powi n \<le> 2 powi m"
      by (intro power_int_increasing) simp_all
    with \<open>(2::real) powi m < 2 powi n\<close> show False by simp
  qed
next
  assume "m < n"
  then show "(2::real) powi m < 2 powi n"
    by (intro power_int_strict_increasing) simp_all
qed

lemma two_powi_le_iff: "(2::real) powi m \<le> 2 powi n \<longleftrightarrow> m \<le> n"
  using two_powi_less_iff [of n m] by (simp add: not_less [symmetric])

lemma binade_unique:
  assumes "2 powi e \<le> (x::real)" "x < 2 powi (e + 1)" "2 powi e' \<le> x" "x < 2 powi (e' + 1)"
  shows "e = e'"
proof -
  have "(2::real) powi e < 2 powi (e' + 1)" using assms by linarith
  then have "e < e' + 1" by (simp add: two_powi_less_iff)
  moreover have "(2::real) powi e' < 2 powi (e + 1)" using assms by linarith
  then have "e' < e + 1" by (simp add: two_powi_less_iff)
  ultimately show ?thesis by simp
qed

lemma binade_spec:
  assumes "2 powi (-1022) \<le> x" "x < 2 ^ 1024"
  shows "2 powi (binade x) \<le> x \<and> x < 2 powi (binade x + 1)"
proof (cases "1 \<le> x")
  case True
  then show ?thesis
    using expo_up_spec [of x 1024] assms by (simp add: binade_def)
next
  case False
  have pos: "0 < x"
    using assms(1) zero_less_power_int [of "2::real" "-1022"] by linarith
  have "2 powi (-1022) * 2 ^ 1022 \<le> x * 2 ^ 1022"
    using assms(1) by (intro mult_right_mono) simp_all
  moreover have "(2::real) powi (-1022) * 2 ^ 1022 = 1"
    by (simp add: power_int_minus)
  ultimately have "1 \<le> x * 2 ^ 1022" by simp
  then show ?thesis
    using expo_down_spec [of x 1022] False pos by (simp add: binade_def)
qed

lemma binade_eq:
  assumes "2 powi e \<le> x" "x < 2 powi (e + 1)" "-1022 \<le> e" "e \<le> 1023"
  shows "binade x = e"
proof -
  have "(2::real) powi (-1022) \<le> 2 powi e"
    using assms(3) by (simp only: two_powi_le_iff)
  then have lo: "2 powi (-1022) \<le> x" using assms(1) by linarith
  have "(2::real) powi (e + 1) \<le> 2 powi 1024"
    using assms(4) by (simp only: two_powi_le_iff; simp)
  then have hi: "x < 2 ^ 1024" using assms(2) by simp
  from binade_spec [OF lo hi] assms(1,2) show ?thesis
    by (blast intro: binade_unique)
qed

lemma binade_subnormal:
  assumes "0 < x" "x < 2 powi (-1022)"
  shows "binade x = -1022"
proof -
  have "x * 2 ^ 1022 < 2 powi (-1022) * 2 ^ 1022"
    using assms by (intro mult_strict_right_mono) simp_all
  moreover have "(2::real) powi (-1022) * 2 ^ 1022 = 1"
    by (simp add: power_int_minus)
  ultimately have lt: "x * 2 ^ 1022 < 1" by simp
  have "(2::real) powi (-1022) \<le> 2 powi 0"
    by (simp only: two_powi_le_iff; simp)
  then have "x < 1" using assms(2) by simp
  then show ?thesis
    using expo_down_floor [OF assms(1) lt] by (simp add: binade_def)
qed

lemma round_half_even_eq:
  assumes "\<bar>m - of_int n\<bar> < 1 / 2"
  shows "round_half_even m = n"
proof (cases "of_int n \<le> m")
  case True
  then have "\<lfloor>m\<rfloor> = n" using assms by (simp add: floor_eq_iff; linarith)
  then show ?thesis using True assms by (simp add: round_half_even_def Let_def)
next
  case False
  then have f: "\<lfloor>m\<rfloor> = n - 1" using assms by (simp add: floor_eq_iff; linarith)
  have d: "m - of_int \<lfloor>m\<rfloor> = m - of_int n + 1" by (simp add: f)
  have "1 / 2 < m - of_int n + 1" using False assms by linarith
  then show ?thesis using f by (simp add: round_half_even_def Let_def d)
qed

lemma round_half_even_of_int [simp]: "round_half_even (of_int n) = n"
  by (rule round_half_even_eq) simp

lemma to_double_pos:
  assumes "2 powi e \<le> x" "x < 2 powi (e + 1)" "-1022 \<le> e" "e < 1023"
    and "\<bar>x / 2 powi (e - 52) - of_int n\<bar> < 1 / 2"
  shows "to_double x = Fin (of_int n * 2 powi (e - 52))"
proof -
  have pos: "0 < x"
    using assms(1) zero_less_power_int [of "2::real" e] by linarith
  have b: "binade x = e"
    using assms by (intro binade_eq) simp_all
  have rm: "round_mag x = of_int n * 2 powi (e - 52)"
    using assms(5) by (simp add: round_mag_def ulp_def b round_half_even_eq)
  have u: "(0::real) < 2 powi (e - 52)" by simp
  have "x / 2 powi (e - 52) < 2 powi (e + 1) / 2 powi (e - 52)"
    using assms(2) u by (simp add: divide_strict_right_mono)
  also have "\<dots> = 2 ^ 53"
    by (simp add: power_int_diff [symmetric])
  finally have "of_int n < (2::real) ^ 53 + 1 / 2" using assms(5) by linarith
  then have "of_int n < (2::real) ^ 53 + 1" by linarith
  then have "of_int n < (of_int (2 ^ 53 + 1) :: real)" by simp
  then have "n < 2 ^ 53 + 1" by (simp only: of_int_less_iff)
  then have "n \<le> 2 ^ 53" by simp
  then have "(of_int n :: real) \<le> 2 ^ 53" using of_int_le_iff [of n "2 ^ 53", where ?'a = real] by simp
  then have "(of_int n :: real) * 2 powi (e - 52) \<le> 2 ^ 53 * 2 powi (e - 52)"
    using u by (intro mult_right_mono) simp_all
  also have "\<dots> = 2 powi (e + 1)"
    using power_int_add [of "2::real" 53 "e - 52"] by (simp add: add.commute)
  also have "\<dots> \<le> 2 powi 1023"
    using assms(4) by (simp only: two_powi_le_iff; simp)
  also have "\<dots> < 2 ^ 1024" by simp
  finally have small: "round_mag x < 2 ^ 1024" by (simp add: rm)
  have "x < 2 powi 1023"
    using assms(2,4) two_powi_le_iff [of "e + 1" 1023] by simp
  then have "x < 2 ^ 1024" by simp
  then show ?thesis
    using pos small rm by (simp add: to_double_def)
qed

lemma to_double_neg:
  assumes "2 powi e \<le> - x" "- x < 2 powi (e + 1)" "-1022 \<le> e" "e < 1023"
    and "\<bar>(- x) / 2 powi (e - 52) - of_int n\<bar> < 1 / 2"
  shows "to_double x = Fin (- (of_int n * 2 powi (e - 52)))"
proof -
  have neg: "x < 0"
    using assms(1) zero_less_power_int [of "2::real" e] by linarith
  from to_double_pos [OF assms]
  have "to_double (- x) = Fin (of_int n * 2 powi (e - 52))" .
  moreover have "to_double x = js_neg (to_double (- x))"
    using neg by (simp add: to_double_def)
  ultimately show ?thesis by simp
qed

subsection \<open>Integers\<close>

text \<open>Integers below \<open>2\<^sup>5\<^sup>3\<close> in magnitude are doubles.\<close>

lemma of_int_div_powi:
  assumes "e \<le> 52"
  shows "of_int k / 2 powi (e - 52) = (of_int (k * 2 ^ nat (52 - e)) :: real)"
proof -
  have "(2::real) powi (e - 52) = inverse (2 powi (52 - e))"
    using power_int_minus [of "2::real" "52 - e"] by simp
  also have "(2::real) powi (52 - e) = 2 ^ nat (52 - e)"
    using assms by (simp add: power_int_def)
  finally show ?thesis by (simp add: field_simps)
qed

lemma to_double_of_int_pos:
  assumes "0 < k" "k < 2 ^ 53"
  shows "to_double (of_int k) = Fin (of_int k)"
proof -
  define x :: real where "x = of_int k"
  have x1: "1 \<le> x" using assms(1) by (simp add: x_def)
  have "x < of_int (2 ^ 53)" unfolding x_def using assms(2) by (simp only: of_int_less_iff)
  then have x53: "x < 2 powi 53" by simp
  have "(2::real) powi (-1022) \<le> 2 powi 0" by (simp only: two_powi_le_iff; simp)
  then have lo: "2 powi (-1022) \<le> x" using x1 by simp
  have "(2::real) powi 53 \<le> 2 powi 1024" by (simp only: two_powi_le_iff; simp)
  then have hi: "x < 2 ^ 1024" using x53 by simp
  define e where "e = binade x"
  have b: "2 powi e \<le> x" "x < 2 powi (e + 1)"
    using binade_spec [OF lo hi] by (simp_all add: e_def)
  have "(2::real) powi 0 < 2 powi (e + 1)" using x1 b(2) by simp
  then have e0: "0 \<le> e" by (simp only: two_powi_less_iff; simp)
  have "(2::real) powi e < 2 powi 53" using x53 b(1) by linarith
  then have e52: "e \<le> 52" by (simp only: two_powi_less_iff; simp)
  have d: "x / 2 powi (e - 52) = of_int (k * 2 ^ nat (52 - e))"
    unfolding x_def using e52 by (rule of_int_div_powi)
  have "to_double x = Fin (of_int (k * 2 ^ nat (52 - e)) * 2 powi (e - 52))"
    using b e0 e52 by (intro to_double_pos) (simp_all add: d)
  also have "of_int (k * 2 ^ nat (52 - e)) * 2 powi (e - 52) = x"
    using d by (simp add: field_simps)
  finally show ?thesis by (simp add: x_def)
qed

lemma to_double_of_int:
  assumes "\<bar>k\<bar> < 2 ^ 53"
  shows "to_double (of_int k) = Fin (of_int k)"
proof -
  consider "k = 0" | "0 < k" | "k < 0" by linarith
  then show ?thesis
  proof cases
    case 1
    then show ?thesis by (simp add: to_double_def)
  next
    case 2
    then show ?thesis using assms by (intro to_double_of_int_pos) simp_all
  next
    case 3
    then have "to_double (of_int (- k)) = Fin (of_int (- k))"
      using assms by (intro to_double_of_int_pos) simp_all
    moreover have "to_double (of_int k) = js_neg (to_double (- of_int k))"
      using 3 by (simp add: to_double_def)
    ultimately show ?thesis by simp
  qed
qed

lemma to_double_numeral [simp]:
  "numeral k < (2::int) ^ 53 \<Longrightarrow> to_double (numeral k) = Fin (numeral k)"
  using to_double_of_int [of "numeral k"] by simp

lemma to_double_neg_numeral [simp]:
  "numeral k < (2::int) ^ 53 \<Longrightarrow> to_double (- numeral k) = Fin (- numeral k)"
  using to_double_of_int [of "- numeral k"] by simp

lemma is_double_numeral [simp]: "numeral k < (2::int) ^ 53 \<Longrightarrow> is_double (Fin (numeral k))"
  by (simp add: is_double_def)

lemma to_double_zero [simp]: "to_double 0 = Fin 0"
  by (simp add: to_double_def)

lemma to_double_one [simp]: "to_double 1 = Fin 1"
  using to_double_pos [of 0 1 "2 ^ 52"] by (simp add: power_int_minus)

subsection \<open>Rounding is monotone\<close>

text \<open>
  Rounding to the nearest double never reverses the order of two reals. Within a binade
  this is the monotonicity of rounding to an integer; across binades the power of two
  that separates them is itself a double.
\<close>

lemma binade_range:
  assumes "0 < x" "x < 2 ^ 1024"
  shows "x < 2 powi (binade x + 1)" and "-1022 \<le> binade x" and "binade x \<le> 1023"
    and "2 powi (binade x) \<le> x \<or> binade x = -1022"
proof -
  have "x < 2 powi (binade x + 1) \<and> -1022 \<le> binade x \<and> binade x \<le> 1023
      \<and> (2 powi (binade x) \<le> x \<or> binade x = -1022)"
  proof (cases "2 powi (-1022) \<le> x")
    case True
    from binade_spec [OF True assms(2)]
    have b: "2 powi (binade x) \<le> x" "x < 2 powi (binade x + 1)" by simp_all
    have "(2::real) powi (binade x) < 2 powi 1024" using b(1) assms(2) by simp
    then have "binade x < 1024" by (simp only: two_powi_less_iff)
    moreover have "(2::real) powi (-1022) < 2 powi (binade x + 1)" using True b(2) by linarith
    then have "-1022 < binade x + 1" by (simp only: two_powi_less_iff)
    ultimately show ?thesis using b by simp
  next
    case False
    then have s: "binade x = -1022"
      using assms(1) by (intro binade_subnormal) simp_all
    have "(2::real) powi (-1022) \<le> 2 powi (-1021)"
      by (simp only: two_powi_le_iff; simp)
    then have "x < 2 powi (-1021)" using False by linarith
    then show ?thesis using s by simp
  qed
  then show "x < 2 powi (binade x + 1)" and "-1022 \<le> binade x" and "binade x \<le> 1023"
    and "2 powi (binade x) \<le> x \<or> binade x = -1022"
    by simp_all
qed

lemma binade_mono:
  assumes "0 < x" "x \<le> y" "y < 2 ^ 1024"
  shows "binade x \<le> binade y"
proof (rule ccontr)
  assume "\<not> binade x \<le> binade y"
  then have lt: "binade y < binade x" by simp
  have x: "x < 2 ^ 1024" "0 < y" using assms by simp_all
  have "-1022 \<le> binade y" using binade_range(2) [OF x(2) assms(3)] .
  then have "binade x \<noteq> -1022" using lt by simp
  then have "2 powi (binade x) \<le> x" using binade_range(4) [OF assms(1) x(1)] by simp
  moreover have "y < 2 powi (binade y + 1)" using binade_range(1) [OF x(2) assms(3)] .
  moreover have "(2::real) powi (binade y + 1) \<le> 2 powi (binade x)"
    using lt by (simp only: two_powi_le_iff; simp)
  ultimately show False using assms(2) by linarith
qed

lemma round_half_even_cases:
  "round_half_even m = \<lfloor>m\<rfloor> \<or> round_half_even m = \<lfloor>m\<rfloor> + 1"
  by (simp add: round_half_even_def Let_def)

lemma round_half_even_mono:
  assumes "m \<le> m'"
  shows "round_half_even m \<le> round_half_even m'"
proof (cases "\<lfloor>m\<rfloor> < \<lfloor>m'\<rfloor>")
  case True
  have "round_half_even m \<le> \<lfloor>m\<rfloor> + 1" using round_half_even_cases [of m] by linarith
  also have "\<dots> \<le> \<lfloor>m'\<rfloor>" using True by simp
  also have "\<dots> \<le> round_half_even m'" using round_half_even_cases [of m'] by linarith
  finally show ?thesis .
next
  case False
  moreover have "\<lfloor>m\<rfloor> \<le> \<lfloor>m'\<rfloor>" using assms by (rule floor_mono)
  ultimately have "\<lfloor>m\<rfloor> = \<lfloor>m'\<rfloor>" by simp
  then show ?thesis
    using assms by (auto simp: round_half_even_def Let_def)
qed

lemma round_half_even_le: "m \<le> of_int n \<Longrightarrow> round_half_even m \<le> n"
  using round_half_even_mono [of m "of_int n"] by simp

lemma round_half_even_ge: "of_int n \<le> m \<Longrightarrow> n \<le> round_half_even m"
  using round_half_even_mono [of "of_int n" m] by simp

lemma ulp_pos [simp]: "0 < ulp x" "0 \<le> ulp x" "\<not> ulp x < 0" "ulp x \<noteq> 0"
  by (simp_all add: ulp_def not_less)

lemma round_mag_nonneg: "0 \<le> x \<Longrightarrow> 0 \<le> round_mag x"
proof -
  assume "0 \<le> x"
  then have "of_int 0 \<le> x / ulp x" by simp
  then have "0 \<le> round_half_even (x / ulp x)" by (rule round_half_even_ge)
  then show ?thesis by (simp add: round_mag_def)
qed

lemma round_mag_upper:
  assumes "0 < x" "x < 2 ^ 1024"
  shows "round_mag x \<le> 2 powi (binade x + 1)"
proof -
  have "x / ulp x \<le> 2 powi (binade x + 1) / ulp x"
    using binade_range(1) [OF assms] by (simp add: divide_right_mono)
  also have "\<dots> = of_int (2 ^ 53)"
    by (simp add: ulp_def power_int_diff [symmetric])
  finally have "round_half_even (x / ulp x) \<le> 2 ^ 53" by (rule round_half_even_le)
  then have "(of_int (round_half_even (x / ulp x)) :: real) \<le> of_int (2 ^ 53)"
    by (simp only: of_int_le_iff)
  then have "round_mag x \<le> 2 ^ 53 * ulp x"
    by (simp add: round_mag_def)
  also have "\<dots> = 2 powi (binade x + 1)"
    using power_int_add [of "2::real" 53 "binade x - 52"] by (simp add: ulp_def add.commute)
  finally show ?thesis .
qed

lemma round_mag_lower:
  assumes "2 powi (binade x) \<le> x"
  shows "2 powi (binade x) \<le> round_mag x"
proof -
  have "2 powi (binade x) / ulp x \<le> x / ulp x"
    using assms by (simp add: divide_right_mono)
  moreover have "2 powi (binade x) / ulp x = of_int (2 ^ 52)"
    by (simp add: ulp_def power_int_diff [symmetric])
  ultimately have "of_int (2 ^ 52) \<le> x / ulp x" by simp
  then have "2 ^ 52 \<le> round_half_even (x / ulp x)" by (rule round_half_even_ge)
  then have "(of_int (2 ^ 52) :: real) \<le> of_int (round_half_even (x / ulp x))"
    by (simp only: of_int_le_iff)
  then have "2 ^ 52 * ulp x \<le> round_mag x"
    by (simp add: round_mag_def)
  moreover have "2 ^ 52 * ulp x = 2 powi (binade x)"
    using power_int_add [of "2::real" 52 "binade x - 52"] by (simp add: ulp_def)
  ultimately show ?thesis by simp
qed

lemma round_mag_mono:
  assumes "0 < x" "x \<le> y" "y < 2 ^ 1024"
  shows "round_mag x \<le> round_mag y"
proof (cases "binade x = binade y")
  case True
  then have u: "ulp x = ulp y" by (simp add: ulp_def)
  have "x / ulp y \<le> y / ulp y" using assms(2) by (simp add: divide_right_mono)
  then have "round_half_even (x / ulp y) \<le> round_half_even (y / ulp y)"
    by (rule round_half_even_mono)
  then have "(of_int (round_half_even (x / ulp y)) :: real) \<le> of_int (round_half_even (y / ulp y))"
    by (simp only: of_int_le_iff)
  then show ?thesis
    by (simp add: round_mag_def u mult_right_mono)
next
  case False
  have xy: "x < 2 ^ 1024" "0 < y" using assms by simp_all
  have lt: "binade x < binade y"
    using False binade_mono [OF assms] by simp
  have "-1022 \<le> binade x" using binade_range(2) [OF assms(1) xy(1)] .
  then have "binade y \<noteq> -1022" using lt by simp
  then have "2 powi (binade y) \<le> y" using binade_range(4) [OF xy(2) assms(3)] by simp
  then have "2 powi (binade y) \<le> round_mag y" by (rule round_mag_lower)
  moreover have "round_mag x \<le> 2 powi (binade x + 1)"
    using assms(1) xy(1) by (rule round_mag_upper)
  moreover have "(2::real) powi (binade x + 1) \<le> 2 powi (binade y)"
    using lt by (simp only: two_powi_le_iff; simp)
  ultimately show ?thesis by linarith
qed

lemma to_double_pos_eq:
  "0 < x \<Longrightarrow> to_double x =
     (if 2 ^ 1024 \<le> x \<or> 2 ^ 1024 \<le> round_mag x then PInf else Fin (round_mag x))"
  by (simp add: to_double_def)

lemma to_double_minus: "to_double (- x) = js_neg (to_double x)"
  by (simp add: to_double_def)

lemma js_neg_neg [simp]: "js_neg (js_neg a) = a"
  by (cases a) simp_all

lemma js_le_neg: "js_le a b \<Longrightarrow> js_le (js_neg b) (js_neg a)"
  by (cases a; cases b) simp_all

lemma to_double_nonneg: "0 \<le> x \<Longrightarrow> js_le (Fin 0) (to_double x)"
proof (cases "x = 0")
  case True
  then show ?thesis by (simp add: to_double_def)
next
  case False
  assume "0 \<le> x"
  then have "0 < x" using False by simp
  then show ?thesis
    using round_mag_nonneg [of x] by (simp add: to_double_pos_eq)
qed

lemma to_double_mono_pos:
  assumes "0 < x" "x \<le> y"
  shows "js_le (to_double x) (to_double y)"
proof (cases "2 ^ 1024 \<le> y \<or> 2 ^ 1024 \<le> round_mag y")
  case True
  then have "to_double y = PInf" using assms by (simp add: to_double_pos_eq)
  then show ?thesis using assms(1) by (simp add: to_double_pos_eq)
next
  case False
  then have y: "y < 2 ^ 1024" "round_mag y < 2 ^ 1024" by simp_all
  have "round_mag x \<le> round_mag y" using assms y(1) by (rule round_mag_mono)
  then show ?thesis
    using assms y by (simp add: to_double_pos_eq)
qed

lemma to_double_mono:
  assumes "x \<le> y"
  shows "js_le (to_double x) (to_double y)"
proof -
  consider "0 < x" | "x \<le> 0" "0 \<le> y" | "y < 0" using assms by linarith
  then show ?thesis
  proof cases
    case 1
    then show ?thesis using assms by (rule to_double_mono_pos)
  next
    case 2
    have "js_le (Fin 0) (to_double (- x))" using 2(1) by (intro to_double_nonneg) simp
    then have "js_le (to_double x) (Fin 0)"
      using js_le_neg [of "Fin 0" "to_double (- x)"] by (simp add: to_double_minus)
    moreover have "js_le (Fin 0) (to_double y)" using 2(2) by (rule to_double_nonneg)
    ultimately show ?thesis
      by (cases "to_double x"; cases "to_double y") simp_all
  next
    case 3
    then have "js_le (to_double (- y)) (to_double (- x))"
      using assms by (intro to_double_mono_pos) simp_all
    then show ?thesis
      using js_le_neg [of "to_double (- y)" "to_double (- x)"]
      by (simp add: to_double_minus)
  qed
qed

lemma to_double_mono_Fin:
  "to_double x = Fin a \<Longrightarrow> to_double y = Fin b \<Longrightarrow> x \<le> y \<Longrightarrow> a \<le> b"
  using to_double_mono [of x y] by simp

subsection \<open>The rounding error\<close>

text \<open>
  A rounded result that is a normal double lies within a relative \<open>2\<^sup>-\<^sup>5\<^sup>3\<close> of the
  exact value.
\<close>

lemma round_half_even_error: "\<bar>of_int (round_half_even m) - m\<bar> \<le> 1 / 2"
proof -
  have "of_int \<lfloor>m\<rfloor> \<le> m" "m < of_int \<lfloor>m\<rfloor> + 1" by linarith+
  then show ?thesis
    by (auto simp: round_half_even_def Let_def)
qed

lemma round_mag_error: "\<bar>round_mag x - x\<bar> \<le> ulp x / 2"
proof -
  have "round_mag x - x = (of_int (round_half_even (x / ulp x)) - x / ulp x) * ulp x"
    by (simp add: round_mag_def left_diff_distrib)
  then have "\<bar>round_mag x - x\<bar> = \<bar>of_int (round_half_even (x / ulp x)) - x / ulp x\<bar> * ulp x"
    by (simp only: abs_mult) simp
  also have "\<dots> \<le> (1 / 2) * ulp x"
    by (intro mult_right_mono round_half_even_error) simp
  finally show ?thesis by simp
qed

lemma rounding_error_pos:
  assumes "to_double x = Fin q" "0 < x" "2 powi (-1022) \<le> q"
  shows "\<bar>q - x\<bar> \<le> q / 2 ^ 53"
proof -
  have x: "x < 2 ^ 1024" and q: "q = round_mag x"
    using assms(1,2) by (simp_all add: to_double_pos_eq split: if_splits)
  have "2 powi (binade x) \<le> q"
  proof (cases "2 powi (binade x) \<le> x")
    case True
    then show ?thesis unfolding q by (rule round_mag_lower)
  next
    case False
    then have "binade x = -1022" using binade_range(4) [OF assms(2) x] by simp
    then show ?thesis using assms(3) by simp
  qed
  moreover have "ulp x / 2 = 2 powi (binade x) / 2 ^ 53"
    using power_int_diff [of "2::real" "binade x - 52" 1]
      power_int_add [of "2::real" "binade x - 53" 53]
    by (simp add: ulp_def field_simps)
  ultimately have "ulp x / 2 \<le> q / 2 ^ 53"
    by (simp add: divide_right_mono)
  then show ?thesis
    using round_mag_error [of x] by (simp add: q)
qed

lemma rounding_error:
  assumes "to_double x = Fin q" "2 powi (-1022) \<le> \<bar>q\<bar>"
  shows "\<bar>q - x\<bar> \<le> \<bar>q\<bar> / 2 ^ 53"
proof -
  have q0: "q \<noteq> 0"
    using assms(2) zero_less_power_int [of "2::real" "-1022"] by auto
  consider "x = 0" | "0 < x" | "x < 0" by linarith
  then show ?thesis
  proof cases
    case 1
    then show ?thesis using assms(1) q0 by simp
  next
    case 2
    then have "js_le (Fin 0) (Fin q)"
      using to_double_nonneg [of x] assms(1) by simp
    then have "0 < q" using q0 by simp
    then show ?thesis
      using rounding_error_pos [OF assms(1) 2] assms(2) by simp
  next
    case 3
    have m: "to_double (- x) = Fin (- q)"
      using assms(1) by (simp add: to_double_minus)
    have "js_le (Fin 0) (Fin (- q))"
      using to_double_nonneg [of "- x"] 3 m by simp
    then have "0 < - q" using q0 by simp
    then show ?thesis
      using rounding_error_pos [OF m] 3 assms(2) by simp
  qed
qed

text \<open>
  A double is a multiple of \<open>2\<^sup>-\<^sup>1\<^sup>0\<^sup>7\<^sup>4\<close>, and a sum of two doubles below the normal range is
  a double: an addition that yields a finite number has relative error at most \<open>2\<^sup>-\<^sup>5\<^sup>3\<close>,
  whatever its size.
\<close>

lemma ulp_grid: "-1022 \<le> binade x \<Longrightarrow> ulp x = of_int (2 ^ nat (binade x + 1022)) * 2 powi (-1074)"
proof -
  assume e: "-1022 \<le> binade x"
  have "(2::real) powi (binade x - 52) = 2 powi (binade x + 1022) * 2 powi (-1074)"
    using power_int_add [of "2::real" "binade x + 1022" "-1074"] by simp
  also have "(2::real) powi (binade x + 1022) = 2 ^ nat (binade x + 1022)"
    using e by (simp add: power_int_def)
  finally show ?thesis by (simp add: ulp_def)
qed

lemma to_double_grid_pos:
  assumes "to_double x = Fin q" "0 < x"
  shows "\<exists>m::int. q = of_int m * 2 powi (-1074)"
proof -
  have x: "x < 2 ^ 1024" and q: "q = round_mag x"
    using assms by (simp_all add: to_double_pos_eq split: if_splits)
  have "-1022 \<le> binade x" using binade_range(2) [OF assms(2) x] .
  then have "q = of_int (round_half_even (x / ulp x) * 2 ^ nat (binade x + 1022)) * 2 powi (-1074)"
    unfolding q round_mag_def by (subst (2) ulp_grid) simp_all
  then show ?thesis by blast
qed

lemma to_double_grid:
  assumes "to_double x = Fin q"
  shows "\<exists>m::int. q = of_int m * 2 powi (-1074)"
proof -
  consider "x = 0" | "0 < x" | "x < 0" by linarith
  then show ?thesis
  proof cases
    case 1
    then have "q = of_int 0 * 2 powi (-1074)" using assms by simp
    then show ?thesis by blast
  next
    case 2
    with assms show ?thesis by (rule to_double_grid_pos)
  next
    case 3
    have "to_double (- x) = Fin (- q)" using assms by (simp add: to_double_minus)
    then obtain m :: int where "- q = of_int m * 2 powi (-1074)"
      using 3 to_double_grid_pos [of "- x" "- q"] by auto
    then have "q = of_int (- m) * 2 powi (-1074)" by simp
    then show ?thesis by blast
  qed
qed

lemma to_double_subnormal_exact:
  assumes "to_double x = Fin q" "0 < x" "q < 2 powi (-1022)" "x = of_int m * 2 powi (-1074)"
  shows "q = x"
proof -
  define t :: real where "t = 2 powi (-1074)"
  have t: "t \<noteq> 0" by (simp add: t_def)
  have x: "x < 2 ^ 1024" and q: "q = round_mag x"
    using assms(1,2) by (simp_all add: to_double_pos_eq split: if_splits)
  have "\<not> 2 powi (binade x) \<le> x"
  proof
    assume n: "2 powi (binade x) \<le> x"
    then have "2 powi (binade x) \<le> q" unfolding q by (rule round_mag_lower)
    moreover have "(2::real) powi (-1022) \<le> 2 powi (binade x)"
      using binade_range(2) [OF assms(2) x] by (simp only: two_powi_le_iff)
    ultimately show False using assms(3) by linarith
  qed
  then have b: "binade x = -1022" using binade_range(4) [OF assms(2) x] by simp
  have u: "ulp x = t" by (simp add: ulp_def b t_def)
  have xt: "x = of_int m * t" using assms(4) by (simp only: t_def)
  have "x / t = of_int m" unfolding xt using t by simp
  then have "round_mag x = of_int m * t"
    by (simp only: round_mag_def u round_half_even_of_int)
  then show ?thesis by (simp only: q xt)
qed

lemma sum_rounding_error:
  assumes "to_double (f + c) = Fin b"
    and "f = of_int m * 2 powi (-1074)" and "c = of_int n * 2 powi (-1074)"
  shows "\<bar>b - (f + c)\<bar> \<le> \<bar>b\<bar> / 2 ^ 53"
proof (cases "2 powi (-1022) \<le> \<bar>b\<bar>")
  case True
  with assms(1) show ?thesis by (rule rounding_error)
next
  case False
  define t :: real where "t = 2 powi (-1074)"
  have ft: "f = of_int m * t" and ct: "c = of_int n * t"
    using assms(2,3) by (simp_all only: t_def)
  have "f + c = of_int (m + n) * t"
    by (simp add: ft ct distrib_right)
  then have g: "f + c = of_int (m + n) * 2 powi (-1074)" by (simp only: t_def)
  have "- (f + c) = of_int (- m - n) * t"
    by (simp add: ft ct algebra_simps)
  then have g': "- (f + c) = of_int (- m - n) * 2 powi (-1074)" by (simp only: t_def)
  consider "f + c = 0" | "0 < f + c" | "f + c < 0" by linarith
  then have "b = f + c"
  proof cases
    case 1
    then show ?thesis using assms(1) by simp
  next
    case 2
    have "js_le (Fin 0) (Fin b)" using to_double_nonneg [of "f + c"] 2 assms(1) by simp
    then have "b < 2 powi (-1022)" using False by simp
    with assms(1) 2 show ?thesis using g by (rule to_double_subnormal_exact)
  next
    case 3
    have m: "to_double (- (f + c)) = Fin (- b)"
      using assms(1) by (simp only: to_double_minus js_neg.simps)
    have "js_le (Fin 0) (Fin (- b))"
      using to_double_nonneg [of "- (f + c)"] 3 m by simp
    then have "- b < 2 powi (-1022)" using False by simp
    with m have "- b = - (f + c)"
      using 3 g' by (intro to_double_subnormal_exact [of "- (f + c)" "- b" "- m - n"]) simp_all
    then show ?thesis by simp
  qed
  then show ?thesis by simp
qed

section \<open>Properties of the operations\<close>

lemmas js_arith = plus_jsnum_def minus_jsnum_def times_jsnum_def divide_jsnum_def
  less_jsnum_def less_eq_jsnum_def

lemma js_less_Fin0: "js_less (Fin 0) v \<longleftrightarrow> v = PInf \<or> (\<exists>x. v = Fin x \<and> 0 < x)"
  by (cases v) simp_all

lemma js_le_Fin0: "js_le (Fin 0) v \<longleftrightarrow> v = PInf \<or> (\<exists>x. v = Fin x \<and> 0 \<le> x)"
  by (cases v) simp_all

lemma js_less_not_le: "Fin 0 < v \<Longrightarrow> \<not> v \<le> Fin 0"
  by (cases v) (simp_all add: js_arith)

lemma isFinite_le_less:
  "isFinite v \<Longrightarrow> \<not> v < Fin 0 \<Longrightarrow> Fin 0 \<le> v"
  "\<not> Fin c < v \<Longrightarrow> isFinite v \<Longrightarrow> v \<le> Fin c"
  by (cases v; simp add: js_arith isFinite_def)+

lemma js_mul_zero_left: "isFinite v \<Longrightarrow> Fin 0 * v = Fin 0"
  by (cases v) (simp_all add: js_arith isFinite_def)

lemma js_mul_one_right: "is_double v \<Longrightarrow> v * Fin 1 = v"
  by (cases v) (simp_all add: js_arith is_double_def signed_inf_def)

text \<open>A finite result of an operation has finite operands.\<close>

lemma js_add_Fin:
  assumes "a + b = Fin c"
  obtains x y where "a = Fin x" "b = Fin y" "to_double (x + y) = Fin c"
  using assms by (cases a; cases b) (simp_all add: js_arith)

lemma js_sub_Fin:
  assumes "a - b = Fin c"
  obtains x y where "a = Fin x" "b = Fin y" "to_double (x - y) = Fin c"
  using assms by (cases a; cases b) (simp_all add: js_arith js_sub_def)

lemma js_mul_Fin:
  assumes "a * b = Fin c"
  obtains x y where "a = Fin x" "b = Fin y" "to_double (x * y) = Fin c"
  using assms by (cases a; cases b) (simp_all add: js_arith signed_inf_def split: if_splits)

lemma js_div_Fin:
  assumes "a / Fin y = Fin c" "y \<noteq> 0"
  obtains x where "a = Fin x" "to_double (x / y) = Fin c"
  using assms by (cases a) (simp_all add: js_arith signed_inf_def split: if_splits)

lemma divide_multiply_close:
  assumes "Fin 0 < pp" and "Fin y / pp = Fin q" and "Fin q * pp = Fin z"
    and "2 powi (-1022) \<le> \<bar>q\<bar>" and "2 powi (-1022) \<le> \<bar>z\<bar>"
  shows "\<bar>z - y\<bar> \<le> \<bar>z\<bar> * (2 / 2 ^ 53 + 1 / 2 ^ 106)"
proof -
  have q0: "q \<noteq> 0"
    using assms(4) zero_less_power_int [of "2::real" "-1022"] by auto
  obtain n where pp: "pp = Fin n" and n: "0 < n" and qr: "to_double (y / n) = Fin q"
    using assms(1,2) q0 by (cases pp) (auto simp: js_arith split: if_splits)
  have zr: "to_double (q * n) = Fin z"
    using assms(3) by (simp add: pp js_arith)
  have e1: "\<bar>q - y / n\<bar> \<le> \<bar>q\<bar> / 2 ^ 53"
    using qr assms(4) by (rule rounding_error)
  have e2: "\<bar>z - q * n\<bar> \<le> \<bar>z\<bar> / 2 ^ 53"
    using zr assms(5) by (rule rounding_error)
  have "q * n - y = (q - y / n) * n" using n by (simp add: field_simps)
  then have "\<bar>q * n - y\<bar> = \<bar>q - y / n\<bar> * n" using n by (simp add: abs_mult)
  also have "\<dots> \<le> (\<bar>q\<bar> / 2 ^ 53) * n" using e1 n by (intro mult_right_mono) simp_all
  also have "\<dots> = \<bar>q * n\<bar> / 2 ^ 53" using n by (simp add: abs_mult)
  finally have e3: "\<bar>q * n - y\<bar> \<le> \<bar>q * n\<bar> / 2 ^ 53" .
  have "\<bar>q * n\<bar> \<le> \<bar>z\<bar> + \<bar>z - q * n\<bar>" by linarith
  then have "\<bar>q * n\<bar> \<le> \<bar>z\<bar> + \<bar>z\<bar> / 2 ^ 53" using e2 by linarith
  then have "\<bar>q * n\<bar> / 2 ^ 53 \<le> (\<bar>z\<bar> + \<bar>z\<bar> / 2 ^ 53) / 2 ^ 53"
    by (rule divide_right_mono) simp
  then have "\<bar>q * n - y\<bar> \<le> (\<bar>z\<bar> + \<bar>z\<bar> / 2 ^ 53) / 2 ^ 53" using e3 by linarith
  moreover have "\<bar>z - y\<bar> \<le> \<bar>z - q * n\<bar> + \<bar>q * n - y\<bar>" by linarith
  ultimately have "\<bar>z - y\<bar> \<le> \<bar>z\<bar> / 2 ^ 53 + (\<bar>z\<bar> + \<bar>z\<bar> / 2 ^ 53) / 2 ^ 53"
    using e2 by linarith
  also have "\<dots> = \<bar>z\<bar> * (2 / 2 ^ 53 + 1 / 2 ^ 106)"
    by (simp add: field_simps)
  finally show ?thesis .
qed

lemma Math_pow_one: "Math_pow pw (Fin 1) (Fin y) = Fin 1"
  by simp

lemma Math_pow_exponent_one: "x \<noteq> 0 \<Longrightarrow> Math_pow pw (Fin x) (Fin 1) = Fin x"
  by (simp add: is_integral_def)

text \<open>The correctly rounded power of a base \<open>\<ge> 1\<close> to an exponent \<open>> 0\<close> is at least \<open>1\<close>.\<close>

lemma exact_pow_ge_one:
  assumes "1 \<le> x" "0 < y"
  shows "1 \<le> exact_pow x y"
proof (cases "is_integral y")
  case True
  have "0 \<le> \<lfloor>y\<rfloor>" using assms(2) by simp
  then show ?thesis using True assms(1) by (simp add: exact_pow_def)
next
  case False
  then show ?thesis using assms by (simp add: exact_pow_def ge_one_powr_ge_zero)
qed

lemma rounded_pow_ge_one:
  assumes "1 \<le> x" "0 < y"
  shows "Fin 1 \<le> Math_pow rounded_pow (Fin x) (Fin y)"
proof -
  have "js_le (to_double 1) (to_double (exact_pow x y))"
    using exact_pow_ge_one [OF assms] by (rule to_double_mono)
  then show ?thesis
    using assms by (simp add: rounded_pow_def js_arith)
qed

lemma numericContribution_number:
  "v \<noteq> NaN \<Longrightarrow> numericContribution conv (JNumber v) = v"
  by (auto simp: numericContribution_def js_Number_def truthy_def Let_def)

lemma falsy_Some: "falsy (Some v) \<longleftrightarrow> v = Fin 0 \<or> v = NaN"
  by (auto simp: falsy_def truthy_def)

subsection \<open>Concrete roundings\<close>

text \<open>
  The operations on the inputs of the witnesses and counterexamples below. Each result is
  the double nearest to the exact value, by \<open>to_double_pos\<close> with its binade and its
  53-bit significand.
\<close>

lemma div_1_100: "Fin 1 / Fin 100 = Fin (5764607523034235 / 2 ^ 59)"
  using to_double_pos [of "-7" "1 / 100" 5764607523034235]
  by (simp add: js_arith power_int_minus)

lemma mul_100_hundredth: "Fin 100 * Fin (5764607523034235 / 2 ^ 59) = Fin 1"
  using to_double_pos [of 0 "100 * (5764607523034235 / 2 ^ 59)" "2 ^ 52"]
  by (simp add: js_arith power_int_minus)

lemma div_1_49: "Fin 1 / Fin 49 = Fin (5882252574524729 / 2 ^ 58)"
  using to_double_pos [of "-6" "1 / 49" 5882252574524729]
  by (simp add: js_arith power_int_minus)

lemma mul_49th_49: "Fin (5882252574524729 / 2 ^ 58) * Fin 49 = Fin (9007199254740991 / 2 ^ 53)"
  using to_double_pos [of "-1" "5882252574524729 / 2 ^ 58 * 49" 9007199254740991]
  by (simp add: js_arith power_int_minus)

lemma small_ints:
  "Fin 65 - Fin 64 = Fin 1" "Fin 1 + Fin 0 = Fin 1" "Fin 1 * Fin 1 = Fin 1"
  "Fin 1 + Fin 1 = Fin 2" "Fin 2 * Fin 1 = Fin 2" "Fin 10 + Fin 1 = Fin 11"
  "\<not> Fin 1 \<le> Fin 0"
  by (simp_all add: js_arith js_sub_def)

lemma w_base: "Fin 1 + Fin (3602879701896397 / 2 ^ 56) = Fin (4728779608739021 / 2 ^ 52)"
  using to_double_pos [of 0 "1 + (3602879701896397 / 2 ^ 56)" 4728779608739021]
  by (simp add: js_arith js_sub_def power_int_minus)

lemma w_future_balance: "Fin 15000 * Fin (4728779608739021 / 2 ^ 52) = Fin 15750"
  using to_double_pos [of 13 "15000 * (4728779608739021 / 2 ^ 52)" 8658654068736000]
  by (simp add: js_arith js_sub_def power_int_minus)

lemma w_growth: "Fin (4728779608739021 / 2 ^ 52) - Fin 1 = Fin (225179981368525 / 2 ^ 52)"
  using to_double_pos [of "-5" "(4728779608739021 / 2 ^ 52) - 1" 7205759403792800]
  by (simp add: js_arith js_sub_def power_int_minus)

lemma w_annuity: "Fin (225179981368525 / 2 ^ 52) / Fin (3602879701896397 / 2 ^ 56) = Fin (1125899906842625 / 2 ^ 50)"
  using to_double_pos [of 0 "(225179981368525 / 2 ^ 52) / (3602879701896397 / 2 ^ 56)" 4503599627370500]
  by (simp add: js_arith js_sub_def power_int_minus)

lemma w_q10: "Fin 10 / Fin 100 = Fin (3602879701896397 / 2 ^ 55)"
  using to_double_pos [of "-4" "10 / 100" 7205759403792794]
  by (simp add: js_arith js_sub_def power_int_minus)

lemma w_y10: "Fin 120000 * Fin (3602879701896397 / 2 ^ 55) = Fin 12000"
  using to_double_pos [of 13 "120000 * (3602879701896397 / 2 ^ 55)" 6597069766656000]
  by (simp add: js_arith js_sub_def power_int_minus)

lemma w_c10: "Fin 12000 * Fin (1125899906842625 / 2 ^ 50) = Fin (3298534883328003 / 2 ^ 38)"
  using to_double_pos [of 13 "12000 * (1125899906842625 / 2 ^ 50)" 6597069766656006]
  by (simp add: js_arith js_sub_def power_int_minus)

lemma w_t10: "Fin 15750 + Fin (3298534883328003 / 2 ^ 38) = Fin (7627861917696003 / 2 ^ 38)"
  using to_double_pos [of 14 "15750 + (3298534883328003 / 2 ^ 38)" 7627861917696003]
  by (simp add: js_arith js_sub_def power_int_minus)

lemma w_q11: "Fin 11 / Fin 100 = Fin (7926335344172073 / 2 ^ 56)"
  using to_double_pos [of "-4" "11 / 100" 7926335344172073]
  by (simp add: js_arith js_sub_def power_int_minus)

lemma w_y11: "Fin 120000 * Fin (7926335344172073 / 2 ^ 56) = Fin 13200"
  using to_double_pos [of 13 "120000 * (7926335344172073 / 2 ^ 56)" 7256776743321600]
  by (simp add: js_arith js_sub_def power_int_minus)

lemma w_c11: "Fin 13200 * Fin (1125899906842625 / 2 ^ 50) = Fin (3628388371660803 / 2 ^ 38)"
  using to_double_pos [of 13 "13200 * (1125899906842625 / 2 ^ 50)" 7256776743321606]
  by (simp add: js_arith js_sub_def power_int_minus)

lemma w_t11: "Fin 15750 + Fin (3628388371660803 / 2 ^ 38) = Fin (7957715406028803 / 2 ^ 38)"
  using to_double_pos [of 14 "15750 + (3628388371660803 / 2 ^ 38)" 7957715406028803]
  by (simp add: js_arith js_sub_def power_int_minus)

lemma x_q2: "Fin 2 / Fin 100 = Fin (5764607523034235 / 2 ^ 58)"
  using to_double_pos [of "-6" "2 / 100" 5764607523034235]
  by (simp add: js_arith js_sub_def power_int_minus)

lemma x_y2: "Fin 100 * Fin (5764607523034235 / 2 ^ 58) = Fin 2"
  using to_double_pos [of 1 "100 * (5764607523034235 / 2 ^ 58)" 4503599627370496]
  by (simp add: js_arith js_sub_def power_int_minus)

lemma x_s1: "Fin 1152921504606846976 + Fin 1 = Fin 1152921504606846976"
  using to_double_pos [of 60 "1152921504606846976 + 1" 4503599627370496]
  by (simp add: js_arith js_sub_def power_int_minus)

lemma x_s2: "Fin 1152921504606846976 + Fin 2 = Fin 1152921504606846976"
  using to_double_pos [of 60 "1152921504606846976 + 2" 4503599627370496]
  by (simp add: js_arith js_sub_def power_int_minus)

lemma x_m: "Fin 1152921504606846976 * Fin 1 = Fin 1152921504606846976"
  using to_double_pos [of 60 "1152921504606846976 * 1" 4503599627370496]
  by (simp add: js_arith js_sub_def power_int_minus)

section \<open>The retirement projector\<close>

text \<open>
  C2. \<open>computeProjection\<close> returns \<^verbatim>\<open>null\<close> exactly when one of \<open>age\<close>,
  \<open>retirementAge\<close>, \<open>salary\<close>, \<open>currentBalance\<close> is absent: with an input missing it
  never returns a number, and with the four present it always returns one. The function
  is total, so it never throws.
\<close>

theorem projector_indeterminate:
  "computeProjection pw a ra r cb s p = None \<longleftrightarrow> a = None \<or> ra = None \<or> s = None \<or> cb = None"
  by (simp add: computeProjection_def Let_def split: option.splits)

theorem projector_indeterminate_witness:
  "computeProjection rounded_pow None (Some (Fin 65)) (Fin (3602879701896397 / 2 ^ 56)) (Some (Fin 15000))
       (Some (Fin 120000)) (Fin 10) = None
   \<and> computeProjection rounded_pow (Some (Fin 30)) (Some (Fin 65)) (Fin (3602879701896397 / 2 ^ 56)) None
       (Some (Fin 120000)) (Fin 10) = None
   \<and> computeProjection rounded_pow (Some (Fin 30)) (Some (Fin 65)) (Fin (3602879701896397 / 2 ^ 56))
       (Some (Fin 15000)) (Some (Fin 120000)) (Fin 10) \<noteq> None"
  using projector_indeterminate [of rounded_pow None "Some (Fin 65)" "Fin (3602879701896397 / 2 ^ 56)"
      "Some (Fin 15000)" "Some (Fin 120000)" "Fin 10"]
    projector_indeterminate [of rounded_pow "Some (Fin 30)" "Some (Fin 65)" "Fin (3602879701896397 / 2 ^ 56)"
      None "Some (Fin 120000)" "Fin 10"]
    projector_indeterminate [of rounded_pow "Some (Fin 30)" "Some (Fin 65)" "Fin (3602879701896397 / 2 ^ 56)"
      "Some (Fin 15000)" "Some (Fin 120000)" "Fin 10"]
  by simp

text \<open>
  C5. When \<open>years = retirementAge - age\<close> is at most \<open>0\<close> and the four required inputs
  are present, the projected balance is \<open>currentBalance + salary * (contributionPercent /
  100)\<close>, the balance plus one yearly contribution. The annual return does not occur in
  the result: no growth is applied.
\<close>

theorem projector_at_retirement:
  assumes "ra - a \<le> Fin 0"
  shows "computeProjection pw (Some a) (Some ra) r (Some cb) (Some s) p
           = Some (cb + s * (p / Fin 100))"
  using assms by (simp add: computeProjection_def Let_def)

theorem projector_at_retirement_witness:
  "Fin 65 - Fin 70 \<le> Fin 0 \<and>
   computeProjection rounded_pow (Some (Fin 70)) (Some (Fin 65)) (Fin (3602879701896397 / 2 ^ 56))
       (Some (Fin 15000)) (Some (Fin 120000)) (Fin 10)
     = Some (Fin 15000 + Fin 120000 * (Fin 10 / Fin 100))"
proof -
  have h: "Fin 65 - Fin 70 \<le> Fin 0"
    by (simp add: js_arith js_sub_def)
  show ?thesis
    using h projector_at_retirement [where pw = rounded_pow, OF h] by simp
qed

text \<open>
  C6. With an annual return of \<open>0\<close>, a finite \<open>years = retirementAge - age > 0\<close> and the
  four required inputs present, the annuity factor is \<open>years\<close> and the projected balance
  is \<open>currentBalance + yearlyContribution * years\<close>, where \<open>yearlyContribution = salary *
  (contributionPercent / 100)\<close>.
\<close>

theorem projector_zero_return:
  assumes "Fin 0 < ra - a" and "isFinite (ra - a)" and "is_double cb"
  shows "annuityFactor pw (Fin 0) (ra - a) = ra - a
       \<and> computeProjection pw (Some a) (Some ra) (Fin 0) (Some cb) (Some s) p
           = Some (cb + (s * (p / Fin 100)) * (ra - a))"
proof -
  obtain y where y: "ra - a = Fin y"
    using assms(2) by (cases "ra - a") (simp_all add: isFinite_def)
  have "\<not> ra - a \<le> Fin 0"
    using assms(1) unfolding y by (simp add: js_arith)
  moreover have "Fin 1 + Fin 0 = Fin 1"
    by (simp add: js_arith)
  moreover have "cb * Math_pow pw (Fin 1) (ra - a) = cb"
    using assms(3) by (simp only: y Math_pow_one js_mul_one_right)
  ultimately show ?thesis
    by (simp add: computeProjection_def annuityFactor_def Let_def)
qed

theorem projector_zero_return_witness:
  "Fin 0 < Fin 65 - Fin 30 \<and> isFinite (Fin 65 - Fin 30) \<and> is_double (Fin 15000)
   \<and> annuityFactor rounded_pow (Fin 0) (Fin 65 - Fin 30) = Fin 65 - Fin 30
   \<and> computeProjection rounded_pow (Some (Fin 30)) (Some (Fin 65)) (Fin 0) (Some (Fin 15000))
        (Some (Fin 120000)) (Fin 10)
       = Some (Fin 15000 + (Fin 120000 * (Fin 10 / Fin 100)) * (Fin 65 - Fin 30))"
proof -
  have y: "Fin 65 - Fin 30 = Fin 35"
    by (simp add: js_arith js_sub_def)
  have h: "Fin 0 < Fin 65 - Fin 30" "isFinite (Fin 65 - Fin 30)" "is_double (Fin 15000)"
    unfolding y by (simp_all add: js_arith isFinite_def)
  show ?thesis
    using h projector_zero_return [where pw = rounded_pow, OF h] by blast
qed

subsection \<open>The projected balance and the contribution rate\<close>

text \<open>With a return \<open>\<ge> 0\<close>, \<open>years > 0\<close> and an engine whose \<^verbatim>\<open>Math.pow(1 + r, years)\<close> is at
  least 1, a finite annuity factor is not negative.\<close>

lemma annuityFactor_nonneg:
  assumes "annuityFactor pw r years = Fin af" "Fin 0 \<le> r" "Fin 0 < years"
    and "Fin 1 \<le> Math_pow pw (Fin 1 + r) years"
  shows "0 \<le> af"
proof (cases "r = Fin 0")
  case True
  then show ?thesis using assms(1,3) by (simp add: annuityFactor_def js_arith)
next
  case False
  then have q: "(Math_pow pw (Fin 1 + r) years - Fin 1) / r = Fin af"
    using assms(1) by (simp add: annuityFactor_def)
  show ?thesis
  proof (cases r)
    case (Fin rv)
    then have rv: "0 < rv" using False assms(2) by (simp add: js_arith)
    from q obtain d where d: "Math_pow pw (Fin 1 + r) years - Fin 1 = Fin d"
      and af: "to_double (d / rv) = Fin af"
      using rv by (auto simp: Fin elim: js_div_Fin)
    from d obtain w u where w: "Math_pow pw (Fin 1 + r) years = Fin w" and "Fin 1 = Fin u"
      and "to_double (w - u) = Fin d"
      by (rule js_sub_Fin)
    then have dd: "to_double (w - 1) = Fin d" by simp
    have "1 \<le> w" using assms(4) unfolding w by (simp add: js_arith)
    then have "0 \<le> d" using dd to_double_mono_Fin [of 0 0 "w - 1" d] by simp
    then have "0 \<le> d / rv" using rv by simp
    then show ?thesis using af to_double_mono_Fin [of 0 0 "d / rv" af] by simp
  next
    case PInf
    then show ?thesis
      using q by (cases "Math_pow pw (Fin 1 + PInf) years - Fin 1") (simp_all add: js_arith)
  qed (use assms(2) in \<open>simp_all add: js_arith\<close>)
qed

text \<open>The values a finite projection in the growth branch is made of.\<close>

lemma projection_parts:
  assumes "Fin 0 < ra - a"
    and "computeProjection pw (Some a) (Some ra) r (Some cb) (Some s) p = Some (Fin b)"
  obtains f c y af sv q x where
    "cb * Math_pow pw (Fin 1 + r) (ra - a) = Fin f"
    "(s * (p / Fin 100)) * annuityFactor pw r (ra - a) = Fin c"
    "to_double (f + c) = Fin b"
    "\<exists>m::int. f = of_int m * 2 powi (-1074)" "\<exists>n::int. c = of_int n * 2 powi (-1074)"
    "s * (p / Fin 100) = Fin y" "annuityFactor pw r (ra - a) = Fin af" "to_double (y * af) = Fin c"
    "s = Fin sv" "p / Fin 100 = Fin q" "to_double (sv * q) = Fin y"
    "p = Fin x" "to_double (x / 100) = Fin q"
proof -
  have "\<not> ra - a \<le> Fin 0" using assms(1) by (rule js_less_not_le)
  then have "cb * Math_pow pw (Fin 1 + r) (ra - a)
      + (s * (p / Fin 100)) * annuityFactor pw r (ra - a) = Fin b"
    using assms(2) by (simp add: computeProjection_def Let_def)
  then obtain f c where f: "cb * Math_pow pw (Fin 1 + r) (ra - a) = Fin f"
    and c: "(s * (p / Fin 100)) * annuityFactor pw r (ra - a) = Fin c"
    and b: "to_double (f + c) = Fin b"
    by (rule js_add_Fin)
  from f obtain u v where "to_double (u * v) = Fin f" by (rule js_mul_Fin)
  then have gf: "\<exists>m::int. f = of_int m * 2 powi (-1074)" by (rule to_double_grid)
  from c obtain y af where y: "s * (p / Fin 100) = Fin y"
    and af: "annuityFactor pw r (ra - a) = Fin af" and cs: "to_double (y * af) = Fin c"
    by (rule js_mul_Fin)
  from cs have gc: "\<exists>n::int. c = of_int n * 2 powi (-1074)" by (rule to_double_grid)
  from y obtain sv q where sv: "s = Fin sv" and q: "p / Fin 100 = Fin q"
    and ys: "to_double (sv * q) = Fin y"
    by (rule js_mul_Fin)
  from q obtain x where x: "p = Fin x" and qs: "to_double (x / 100) = Fin q"
    by (rule js_div_Fin) simp
  from f c b gf gc y af cs sv q ys x qs show ?thesis by (rule that)
qed

text \<open>
  The projected balance does not decrease with the percent: every rounding on the way from
  the percent to the balance is monotone, and the annuity factor is not negative.
\<close>

lemma projection_mono_core:
  assumes s: "Fin 0 < s" and years: "Fin 0 < ra - a" and r: "Fin 0 \<le> r"
    and pw: "Fin 1 \<le> Math_pow pw (Fin 1 + r) (ra - a)"
    and pp: "p = Fin x" "p' = Fin x'" "x \<le> x'"
    and b: "computeProjection pw (Some a) (Some ra) r (Some cb) (Some s) p = Some (Fin b)"
    and b': "computeProjection pw (Some a) (Some ra) r (Some cb) (Some s) p' = Some (Fin b')"
  shows "b \<le> b'"
proof -
  from years b obtain f c y af sv q x0 where
    f: "cb * Math_pow pw (Fin 1 + r) (ra - a) = Fin f"
    and bs: "to_double (f + c) = Fin b"
    and af: "annuityFactor pw r (ra - a) = Fin af" and cs: "to_double (y * af) = Fin c"
    and sv: "s = Fin sv" and ys: "to_double (sv * q) = Fin y"
    and x0: "p = Fin x0" and qs: "to_double (x0 / 100) = Fin q"
    by (rule projection_parts)
  from years b' obtain f' c' y' af' sv' q' x0' where
    f': "cb * Math_pow pw (Fin 1 + r) (ra - a) = Fin f'"
    and bs': "to_double (f' + c') = Fin b'"
    and af': "annuityFactor pw r (ra - a) = Fin af'" and cs': "to_double (y' * af') = Fin c'"
    and sv': "s = Fin sv'" and ys': "to_double (sv' * q') = Fin y'"
    and x0': "p' = Fin x0'" and qs': "to_double (x0' / 100) = Fin q'"
    by (rule projection_parts)
  have e: "f' = f" "af' = af" "sv' = sv" "x0 = x" "x0' = x'"
    using f f' af af' sv sv' x0 x0' pp(1,2) by simp_all
  have svpos: "0 < sv" using s by (simp add: sv js_arith)
  have "q \<le> q'"
    using qs qs' pp(3) to_double_mono_Fin [of "x / 100" q "x' / 100" q'] by (simp add: e)
  then have "sv * q \<le> sv * q'" using svpos by simp
  then have yy: "y \<le> y'" using ys ys' e to_double_mono_Fin by blast
  have "0 \<le> af" using af r years pw by (rule annuityFactor_nonneg)
  then have "y * af \<le> y' * af" using yy by (rule mult_right_mono [rotated])
  then have "c \<le> c'" using cs cs' e to_double_mono_Fin by blast
  then have "f + c \<le> f + c'" by simp
  then show ?thesis using bs bs' e to_double_mono_Fin by blast
qed

text \<open>
  The projected balance increases strictly when the future contributions increase by more
  than the rounding errors of the two final sums.
\<close>

lemma projection_strict_core:
  assumes years: "Fin 0 < ra - a"
    and b: "computeProjection pw (Some a) (Some ra) r (Some cb) (Some s) p = Some (Fin b)"
    and b': "computeProjection pw (Some a) (Some ra) r (Some cb) (Some s) p' = Some (Fin b')"
    and c: "(s * (p / Fin 100)) * annuityFactor pw r (ra - a) = Fin c"
    and c': "(s * (p' / Fin 100)) * annuityFactor pw r (ra - a) = Fin c'"
    and margin: "(\<bar>b\<bar> + \<bar>b'\<bar>) / 2 ^ 53 < c' - c"
  shows "b < b'"
proof -
  from years b obtain f c0 where
    f: "cb * Math_pow pw (Fin 1 + r) (ra - a) = Fin f"
    and c0: "(s * (p / Fin 100)) * annuityFactor pw r (ra - a) = Fin c0"
    and bs: "to_double (f + c0) = Fin b"
    and gf: "\<exists>m::int. f = of_int m * 2 powi (-1074)"
    and gc: "\<exists>n::int. c0 = of_int n * 2 powi (-1074)"
    by (rule projection_parts)
  from years b' obtain f' c0' where
    f': "cb * Math_pow pw (Fin 1 + r) (ra - a) = Fin f'"
    and c0': "(s * (p' / Fin 100)) * annuityFactor pw r (ra - a) = Fin c0'"
    and bs': "to_double (f' + c0') = Fin b'"
    and gc': "\<exists>n::int. c0' = of_int n * 2 powi (-1074)"
    by (rule projection_parts)
  have e: "f' = f" "c0 = c" "c0' = c'"
    using f f' c c0 c' c0' by simp_all
  have "\<bar>b - (f + c)\<bar> \<le> \<bar>b\<bar> / 2 ^ 53"
    using bs gf gc unfolding e by (blast intro: sum_rounding_error)
  moreover have "\<bar>b' - (f + c')\<bar> \<le> \<bar>b'\<bar> / 2 ^ 53"
    using bs' gf gc' unfolding e by (blast intro: sum_rounding_error)
  moreover have "(\<bar>b\<bar> + \<bar>b'\<bar>) / 2 ^ 53 = \<bar>b\<bar> / 2 ^ 53 + \<bar>b'\<bar> / 2 ^ 53"
    by (simp add: add_divide_distrib)
  ultimately show ?thesis using margin by linarith
qed

text \<open>
  Two projections that the contribution rate cannot move. With a balance of \<open>2\<^sup>6\<^sup>0\<close>, salary
  100, one year to retirement and no return, the yearly contributions 1 and 2 of the rates
  1 and 2 percent are absorbed by the rounding of the final sum. With a salary of \<open>2\<^sup>1\<^sup>0\<^sup>2\<^sup>3\<close>
  and a return of \<open>2\<^sup>-\<^sup>6\<^sup>0\<close>, the yearly contribution overflows to \<open>Infinity\<close>, the annuity
  factor \<open>(1 - 1) / r\<close> is \<open>0\<close>, and their product is NaN.
\<close>

lemma absorbed_1:
  "computeProjection rounded_pow (Some (Fin 64)) (Some (Fin 65)) (Fin 0) (Some (Fin (2 ^ 60)))
       (Some (Fin 100)) (Fin 1) = Some (Fin (2 ^ 60))"
  by (simp add: computeProjection_def annuityFactor_def Let_def small_ints
      div_1_100 [simplified] mul_100_hundredth [simplified] x_m x_s1)

lemma absorbed_2:
  "computeProjection rounded_pow (Some (Fin 64)) (Some (Fin 65)) (Fin 0) (Some (Fin (2 ^ 60)))
       (Some (Fin 100)) (Fin 1 + Fin 1) = Some (Fin (2 ^ 60))"
  by (simp add: computeProjection_def annuityFactor_def Let_def small_ints
      x_q2 [simplified] x_y2 [simplified] x_m x_s2)

lemma overflow_parts:
  "Fin 1 + Fin (1 / 2 ^ 60) = Fin 1"
  "Fin 1001 / Fin 100 = Fin (5635129033747333 / 2 ^ 49)"
  "Fin 0 / Fin (1 / 2 ^ 60) = Fin 0" "Fin 1000 / Fin 100 = Fin 10"
  "Fin 15000 * Fin 1 = Fin 15000" "Fin 1 - Fin 1 = Fin 0" "Fin 1000 + Fin 1 = Fin 1001"
  "PInf * Fin 0 = NaN" "Fin 15000 + NaN = NaN"
  using to_double_pos [of 0 "1 + 1 / 2 ^ 60" "2 ^ 52"]
    to_double_pos [of 3 "1001 / 100" 5635129033747333]
  by (simp_all add: js_arith js_sub_def power_int_minus)

lemma overflow_products:
  "Fin (2 ^ 1023) * Fin 10 = PInf"
  "Fin (2 ^ 1023) * Fin (5635129033747333 / 2 ^ 49) = PInf"
  by (simp_all add: js_arith to_double_def)

lemma not_a_number_1:
  "computeProjection rounded_pow (Some (Fin 64)) (Some (Fin 65)) (Fin (1 / 2 ^ 60))
       (Some (Fin 15000)) (Some (Fin (2 ^ 1023))) (Fin 1000) = Some NaN"
  by (simp add: computeProjection_def annuityFactor_def Let_def small_ints
      overflow_parts [simplified] overflow_products [simplified])

lemma not_a_number_2:
  "computeProjection rounded_pow (Some (Fin 64)) (Some (Fin 65)) (Fin (1 / 2 ^ 60))
       (Some (Fin 15000)) (Some (Fin (2 ^ 1023))) (Fin 1000 + Fin 1) = Some NaN"
  by (simp add: computeProjection_def annuityFactor_def Let_def small_ints
      overflow_parts [simplified] overflow_products [simplified])




text \<open>
  The condition on \<^verbatim>\<open>Math.pow\<close> in the first part is needed: the language puts no bound
  on the error of an approximated power, and with a power below \<open>1\<close> the annuity factor is
  negative, so that a higher rate projects a lower balance. Here the engine answers \<open>0\<close>,
  with two years to retirement and a return of 100 percent.
\<close>

lemma engine_power_below_one:
  "Fin 0 < Fin 1 \<and> Fin 0 < Fin 66 - Fin 64 \<and> Fin 0 \<le> Fin 1 \<and> Fin 0 < Fin 100
   \<and> is_double (Fin 100)
   \<and> Math_pow (\<lambda>x y. Fin 0) (Fin 1 + Fin 1) (Fin 66 - Fin 64) = Fin 0
   \<and> computeProjection (\<lambda>x y. Fin 0) (Some (Fin 64)) (Some (Fin 66)) (Fin 1) (Some (Fin 0))
        (Some (Fin 1)) (Fin 100) = Some (Fin (- 1))
   \<and> computeProjection (\<lambda>x y. Fin 0) (Some (Fin 64)) (Some (Fin 66)) (Fin 1) (Some (Fin 0))
        (Some (Fin 1)) (Fin 100 + Fin 100) = Some (Fin (- 2))"
  by (simp add: computeProjection_def annuityFactor_def Let_def js_arith js_sub_def
      to_double_minus)

section \<open>The contribution normalizer\<close>

text \<open>
  C4. For a dollar selection and a snapshot of finite numbers in which the salary or the
  number of pay periods is \<open>0\<close>, the equivalent percent, the per-paycheck amount and the
  yearly amount are all the number \<open>0\<close>: none is NaN or an infinity, and the functions
  are total.
\<close>

theorem dollar_zero_guard:
  assumes "isFinite s" and "isFinite pp" and "s = Fin 0 \<or> pp = Fin 0"
  shows "livePercent False n (Some s) (Some pp) = Fin 0
       \<and> perPaycheckDollar False n (Some s) (Some pp) = Fin 0
       \<and> yearlyContribution (perPaycheckDollar False n (Some s) (Some pp)) (Some pp) = Fin 0"
proof -
  have f: "falsy (Some s) \<or> falsy (Some pp)"
    using assms(3) by (auto simp: falsy_Some)
  have l: "livePercent False n (Some s) (Some pp) = Fin 0"
    using f by (auto simp: livePercent_def)
  have p: "perPaycheckDollar False n (Some s) (Some pp) = Fin 0"
    using f by (auto simp: perPaycheckDollar_def)
  have "yearlyContribution (Fin 0) (Some pp) = Fin 0"
    using assms(2) by (simp add: yearlyContribution_def js_mul_zero_left)
  then show ?thesis using l p by simp
qed

theorem dollar_zero_guard_witness:
  "isFinite (Fin 0) \<and> isFinite (Fin 24)
   \<and> livePercent False (Fin 200) (Some (Fin 0)) (Some (Fin 24)) = Fin 0
   \<and> perPaycheckDollar False (Fin 200) (Some (Fin 0)) (Some (Fin 24)) = Fin 0
   \<and> yearlyContribution (perPaycheckDollar False (Fin 200) (Some (Fin 0)) (Some (Fin 24)))
        (Some (Fin 24)) = Fin 0
   \<and> livePercent False (Fin 200) (Some (Fin 120000)) (Some (Fin 0)) = Fin 0
   \<and> perPaycheckDollar False (Fin 200) (Some (Fin 120000)) (Some (Fin 0)) = Fin 0
   \<and> yearlyContribution (perPaycheckDollar False (Fin 200) (Some (Fin 120000)) (Some (Fin 0)))
        (Some (Fin 0)) = Fin 0"
proof -
  have h: "isFinite (Fin 0)" "isFinite (Fin 24)" "isFinite (Fin 120000)"
    by (simp_all add: isFinite_def)
  show ?thesis
    using h dollar_zero_guard [of "Fin 0" "Fin 24" "Fin 200"]
      dollar_zero_guard [of "Fin 120000" "Fin 0" "Fin 200"]
    by blast
qed

text \<open>
  C3, as stated, fails where the salary is \<open>0\<close>: with a dollar selection of 100, salary
  \<open>0\<close> and 24 pay periods the guard \<^verbatim>\<open>if (!salary || !payPeriods) return 0\<close> makes the
  per-paycheck amount and the yearly amount \<open>0\<close>, not \<open>100\<close> and \<open>2400\<close>.
\<close>

theorem dollar_rule_counterexample:
  "Fin 0 \<le> Fin 100 \<and> Fin 0 \<le> Fin 0 \<and> Fin 1 \<le> Fin 24 \<and> Fin 24 \<le> Fin 52
   \<and> numericContribution (\<lambda>w. NaN) (JNumber (Fin 100)) = Fin 100
   \<and> perPaycheckDollar False (Fin 100) (Some (Fin 0)) (Some (Fin 24)) = Fin 0
   \<and> Fin 0 \<noteq> Fin 100
   \<and> yearlyContribution (perPaycheckDollar False (Fin 100) (Some (Fin 0)) (Some (Fin 24)))
        (Some (Fin 24)) = Fin 0
   \<and> Fin 100 * Fin 24 = Fin 2400"
  by (simp add: js_arith numericContribution_number perPaycheckDollar_def yearlyContribution_def
      falsy_Some)

text \<open>
  C3, amended. For a dollar selection with value \<open>v \<ge> 0\<close>, salary \<open>\<ge> 0\<close> and pay periods in
  \<open>(0, 52]\<close>: when the salary is positive the per-paycheck amount is \<open>v\<close>, the yearly
  amount is \<open>v * payPeriods\<close> and the equivalent percent is \<open>(v * payPeriods / salary) *
  100\<close>; when the salary is \<open>0\<close> all three are \<open>0\<close>.
\<close>

theorem dollar_rule:
  assumes "Fin 0 \<le> v" and "Fin 0 \<le> s" and "Fin 0 < pp" and "pp \<le> Fin 52"
  shows "numericContribution conv (JNumber v) = v
    \<and> (Fin 0 < s \<longrightarrow>
          perPaycheckDollar False v (Some s) (Some pp) = v
        \<and> yearlyContribution (perPaycheckDollar False v (Some s) (Some pp)) (Some pp) = v * pp
        \<and> livePercent False v (Some s) (Some pp) = ((v * pp) / s) * Fin 100)
    \<and> (s = Fin 0 \<longrightarrow>
          perPaycheckDollar False v (Some s) (Some pp) = Fin 0
        \<and> yearlyContribution (perPaycheckDollar False v (Some s) (Some pp)) (Some pp) = Fin 0
        \<and> livePercent False v (Some s) (Some pp) = Fin 0)"
proof -
  have n: "numericContribution conv (JNumber v) = v"
    using assms(1) by (intro numericContribution_number) (auto simp: js_arith)
  have p: "\<not> falsy (Some pp)" and pf: "isFinite pp"
    using assms(3,4) by (cases pp; auto simp: falsy_Some js_arith isFinite_def)+
  have pos: "\<not> falsy (Some s)" if "Fin 0 < s"
    using that by (auto simp: falsy_Some js_arith)
  have zero: "falsy (Some s)" if "s = Fin 0"
    using that by (simp add: falsy_Some)
  show ?thesis
    using n p pf pos zero
    by (auto simp: perPaycheckDollar_def yearlyContribution_def livePercent_def
        js_mul_zero_left)
qed

theorem dollar_rule_witness:
  "Fin 0 \<le> Fin 200 \<and> Fin 0 \<le> Fin 120000 \<and> Fin 0 < Fin 24 \<and> Fin 24 \<le> Fin 52
   \<and> Fin 0 < Fin 120000
   \<and> numericContribution (\<lambda>w. NaN) (JNumber (Fin 200)) = Fin 200
   \<and> perPaycheckDollar False (Fin 200) (Some (Fin 120000)) (Some (Fin 24)) = Fin 200
   \<and> yearlyContribution (perPaycheckDollar False (Fin 200) (Some (Fin 120000)) (Some (Fin 24)))
        (Some (Fin 24)) = Fin 200 * Fin 24
   \<and> livePercent False (Fin 200) (Some (Fin 120000)) (Some (Fin 24))
        = ((Fin 200 * Fin 24) / Fin 120000) * Fin 100
   \<and> perPaycheckDollar False (Fin 200) (Some (Fin 0)) (Some (Fin 24)) = Fin 0
   \<and> yearlyContribution (perPaycheckDollar False (Fin 200) (Some (Fin 0)) (Some (Fin 24)))
        (Some (Fin 24)) = Fin 0
   \<and> livePercent False (Fin 200) (Some (Fin 0)) (Some (Fin 24)) = Fin 0"
proof -
  have h: "Fin 0 \<le> Fin 200" "Fin 0 \<le> Fin 120000" "Fin 0 < Fin 24" "Fin 24 \<le> Fin 52"
    "Fin 0 < Fin 120000" "Fin 0 \<le> Fin 0"
    by (simp_all add: js_arith)
  show ?thesis
    using h dollar_rule [of "Fin 200" "Fin 120000" "Fin 24" "\<lambda>w. NaN"]
      dollar_rule [of "Fin 200" "Fin 0" "Fin 24" "\<lambda>w. NaN"]
    by blast
qed

text \<open>
  C7, as stated, fails in double arithmetic: the yearly amount is computed as the
  per-paycheck amount times the pay periods, and dividing by the pay periods and
  multiplying back does not always return the rounded \<open>salary * (v / 100)\<close>. With a 1
  percent selection, salary 100 and 49 pay periods, \<open>salary * (v / 100)\<close> is \<open>1\<close> and the
  yearly amount is \<open>1 - 2\<^sup>-\<^sup>5\<^sup>3\<close> (\<^verbatim>\<open>0.9999999999999999\<close>).
\<close>

theorem percent_rule_counterexample:
  "numericContribution (\<lambda>w. NaN) (JNumber (Fin 1)) = Fin 1
   \<and> Fin 0 < Fin 100 \<and> Fin 0 < Fin 49
   \<and> yearlyContribution (perPaycheckDollar True (Fin 1) (Some (Fin 100)) (Some (Fin 49)))
        (Some (Fin 49)) = Fin (9007199254740991 / 2 ^ 53)
   \<and> Fin 100 * (Fin 1 / Fin 100) = Fin 1
   \<and> Fin (9007199254740991 / 2 ^ 53) \<noteq> Fin 1"
proof -
  have "perPaycheckDollar True (Fin 1) (Some (Fin 100)) (Some (Fin 49))
          = (Fin 100 * (Fin 1 / Fin 100)) / Fin 49"
    by (simp add: perPaycheckDollar_def falsy_Some)
  also have "\<dots> = Fin (5882252574524729 / 2 ^ 58)"
    by (simp only: div_1_100 mul_100_hundredth div_1_49)
  finally have p: "perPaycheckDollar True (Fin 1) (Some (Fin 100)) (Some (Fin 49))
          = Fin (5882252574524729 / 2 ^ 58)" .
  have "yearlyContribution (perPaycheckDollar True (Fin 1) (Some (Fin 100)) (Some (Fin 49)))
        (Some (Fin 49)) = Fin (5882252574524729 / 2 ^ 58) * Fin 49"
    unfolding p by (simp add: yearlyContribution_def falsy_Some)
  also have "\<dots> = Fin (9007199254740991 / 2 ^ 53)"
    by (rule mul_49th_49)
  finally have "yearlyContribution
      (perPaycheckDollar True (Fin 1) (Some (Fin 100)) (Some (Fin 49))) (Some (Fin 49))
        = Fin (9007199254740991 / 2 ^ 53)" .
  moreover have "Fin 100 * (Fin 1 / Fin 100) = Fin 1"
    by (simp only: div_1_100 mul_100_hundredth)
  moreover have "numericContribution (\<lambda>w. NaN) (JNumber (Fin 1)) = Fin 1"
    by (simp add: numericContribution_number)
  moreover have "Fin 0 < Fin 100" "Fin 0 < Fin 49"
    by (simp_all add: js_arith)
  ultimately show ?thesis by simp
qed

text \<open>
  C7, amended. For a percent selection with value \<open>v\<close>, salary \<open>> 0\<close> and pay periods
  \<open>> 0\<close>: the equivalent percent is \<open>v\<close>, the per-paycheck amount is \<open>salary * (v / 100) /
  payPeriods\<close>, and the yearly amount is the per-paycheck amount times \<open>payPeriods\<close>. The
  yearly amount is \<open>salary * (v / 100)\<close> up to the two roundings: when the per-paycheck
  and the yearly amounts are normal doubles (at least \<open>2\<^sup>-\<^sup>1\<^sup>0\<^sup>2\<^sup>2\<close> in magnitude), they
  differ by at most \<open>2\<^sup>-\<^sup>5\<^sup>2 + 2\<^sup>-\<^sup>1\<^sup>0\<^sup>6\<close> of the yearly amount.
\<close>

theorem percent_rule:
  assumes "v \<noteq> NaN" and "Fin 0 < s" and "Fin 0 < pp"
  shows "numericContribution conv (JNumber v) = v
       \<and> livePercent True v (Some s) (Some pp) = v
       \<and> perPaycheckDollar True v (Some s) (Some pp) = (s * (v / Fin 100)) / pp
       \<and> yearlyContribution (perPaycheckDollar True v (Some s) (Some pp)) (Some pp)
           = ((s * (v / Fin 100)) / pp) * pp
       \<and> (s * (v / Fin 100) = Fin y
            \<and> perPaycheckDollar True v (Some s) (Some pp) = Fin q
            \<and> yearlyContribution (perPaycheckDollar True v (Some s) (Some pp)) (Some pp) = Fin z
            \<and> 2 powi (-1022) \<le> \<bar>q\<bar> \<and> 2 powi (-1022) \<le> \<bar>z\<bar>
          \<longrightarrow> \<bar>z - y\<bar> \<le> \<bar>z\<bar> * (2 / 2 ^ 53 + 1 / 2 ^ 106))"
proof -
  have "\<not> falsy (Some s)" and "\<not> falsy (Some pp)"
    using assms(2,3) by (auto simp: falsy_Some js_arith)
  then have p: "perPaycheckDollar True v (Some s) (Some pp) = (s * (v / Fin 100)) / pp"
    and y: "yearlyContribution (perPaycheckDollar True v (Some s) (Some pp)) (Some pp)
           = ((s * (v / Fin 100)) / pp) * pp"
    by (simp_all add: perPaycheckDollar_def yearlyContribution_def)
  have "numericContribution conv (JNumber v) = v"
    using assms(1) by (rule numericContribution_number)
  moreover have "livePercent True v (Some s) (Some pp) = v"
    by (simp add: livePercent_def)
  moreover have "\<bar>z - y\<bar> \<le> \<bar>z\<bar> * (2 / 2 ^ 53 + 1 / 2 ^ 106)"
    if "s * (v / Fin 100) = Fin y" "perPaycheckDollar True v (Some s) (Some pp) = Fin q"
      "yearlyContribution (perPaycheckDollar True v (Some s) (Some pp)) (Some pp) = Fin z"
      "2 powi (-1022) \<le> \<bar>q\<bar>" "2 powi (-1022) \<le> \<bar>z\<bar>"
  proof -
    have "Fin y / pp = Fin q" using that(1,2) p by simp
    moreover have "Fin q * pp = Fin z" using that(2,3) p y by simp
    ultimately show ?thesis using assms(3) that(4,5) by (intro divide_multiply_close)
  qed
  ultimately show ?thesis using p y by blast
qed

theorem percent_rule_witness:
  "Fin 1 \<noteq> NaN \<and> Fin 0 < Fin 100 \<and> Fin 0 < Fin 49
   \<and> numericContribution (\<lambda>w. NaN) (JNumber (Fin 1)) = Fin 1
   \<and> livePercent True (Fin 1) (Some (Fin 100)) (Some (Fin 49)) = Fin 1
   \<and> perPaycheckDollar True (Fin 1) (Some (Fin 100)) (Some (Fin 49))
       = (Fin 100 * (Fin 1 / Fin 100)) / Fin 49
   \<and> yearlyContribution (perPaycheckDollar True (Fin 1) (Some (Fin 100)) (Some (Fin 49)))
        (Some (Fin 49)) = ((Fin 100 * (Fin 1 / Fin 100)) / Fin 49) * Fin 49
   \<and> Fin 100 * (Fin 1 / Fin 100) = Fin 1
   \<and> (Fin 100 * (Fin 1 / Fin 100)) / Fin 49 = Fin (5882252574524729 / 2 ^ 58)
   \<and> ((Fin 100 * (Fin 1 / Fin 100)) / Fin 49) * Fin 49 = Fin (9007199254740991 / 2 ^ 53)
   \<and> \<bar>9007199254740991 / 2 ^ 53 - 1 :: real\<bar>
       \<le> \<bar>9007199254740991 / 2 ^ 53\<bar> * (2 / 2 ^ 53 + 1 / 2 ^ 106)"
proof -
  have h: "Fin 1 \<noteq> NaN" "Fin 0 < Fin 100" "Fin 0 < Fin 49"
    by (simp_all add: js_arith)
  note t = percent_rule [OF h, of "\<lambda>w. NaN" 1 "5882252574524729 / 2 ^ 58"
      "9007199254740991 / 2 ^ 53"]
  have y: "Fin 100 * (Fin 1 / Fin 100) = Fin 1"
    by (simp only: div_1_100 mul_100_hundredth)
  have q: "(Fin 100 * (Fin 1 / Fin 100)) / Fin 49 = Fin (5882252574524729 / 2 ^ 58)"
    by (simp only: y div_1_49)
  have z: "((Fin 100 * (Fin 1 / Fin 100)) / Fin 49) * Fin 49 = Fin (9007199254740991 / 2 ^ 53)"
    by (simp only: q mul_49th_49)
  have n: "2 powi (-1022) \<le> \<bar>5882252574524729 / 2 ^ 58 :: real\<bar>"
    "2 powi (-1022) \<le> \<bar>9007199254740991 / 2 ^ 53 :: real\<bar>"
    by (simp_all add: power_int_minus field_simps)
  from t have p: "perPaycheckDollar True (Fin 1) (Some (Fin 100)) (Some (Fin 49))
       = (Fin 100 * (Fin 1 / Fin 100)) / Fin 49"
    and c: "yearlyContribution (perPaycheckDollar True (Fin 1) (Some (Fin 100)) (Some (Fin 49)))
        (Some (Fin 49)) = ((Fin 100 * (Fin 1 / Fin 100)) / Fin 49) * Fin 49"
    by blast+
  have "\<bar>9007199254740991 / 2 ^ 53 - 1 :: real\<bar>
       \<le> \<bar>9007199254740991 / 2 ^ 53\<bar> * (2 / 2 ^ 53 + 1 / 2 ^ 106)"
    using t y n p [unfolded q] c [unfolded z] by blast
  then show ?thesis
    using h t y q z by blast
qed

section \<open>The equivalent percent, on the server and in the page\<close>

text \<open>
  C1. For a stored selection with a value \<open>\<ge> 0\<close> and a snapshot with salary \<open>\<ge> 0\<close> and
  pay periods in \<open>(0, 52]\<close>, the \<open>currentPercent\<close> of the GET handler is the
  \<open>livePercent\<close> the page computes from the same type, value, salary and pay periods.
  Both sides apply the same operations in the same order, so the equality is exact.
\<close>

theorem percent_consistent:
  assumes "Fin 0 \<le> contributionValue st"
    and "Fin 0 \<le> salary st"
    and "Fin 0 < payPeriodsPerYear st" and "payPeriodsPerYear st \<le> Fin 52"
  shows "currentPercent st =
           livePercent (contributionType st = ''percent'')
             (numericContribution conv (JNumber (contributionValue st)))
             (Some (salary st)) (Some (payPeriodsPerYear st))"
proof -
  have v: "numericContribution conv (JNumber (contributionValue st)) = contributionValue st"
    using assms(1) by (intro numericContribution_number) (auto simp: js_arith)
  have s: "falsy (Some (salary st)) \<longleftrightarrow> \<not> Fin 0 < salary st"
    using assms(2) by (auto simp: falsy_def truthy_def js_arith js_le_Fin0 js_less_Fin0)
  have p: "\<not> falsy (Some (payPeriodsPerYear st))"
    using assms(3) by (auto simp: falsy_def truthy_def js_arith js_less_Fin0)
  show ?thesis
    using assms(3) by (simp add: currentPercent_def livePercent_def v s p)
qed

theorem percent_consistent_witness:
  "Fin 0 \<le> Fin 200 \<and> Fin 0 \<le> Fin 120000 \<and> Fin 0 < Fin 24 \<and> Fin 24 \<le> Fin 52
   \<and> currentPercent (initialState\<lparr> contributionType := ''dollar'', contributionValue := Fin 200 \<rparr>)
       = livePercent False (numericContribution (\<lambda>w. NaN) (JNumber (Fin 200)))
           (Some (Fin 120000)) (Some (Fin 24))
   \<and> currentPercent initialState
       = livePercent True (numericContribution (\<lambda>w. NaN) (JNumber (Fin 10)))
           (Some (Fin 120000)) (Some (Fin 24))"
  using percent_consistent
      [of "initialState\<lparr> contributionType := ''dollar'', contributionValue := Fin 200 \<rparr>"
          "\<lambda>w. NaN"]
    percent_consistent [of initialState "\<lambda>w. NaN"]
  by (simp add: initialState_def js_arith)

section \<open>Saving a selection\<close>

lemma post_rejected:
  "rejected conv body \<Longrightarrow> \<exists>msg. post_contribution conv st body = (st, Status400 msg)"
  unfolding rejected_def post_contribution_def Let_def
  by (auto split: if_splits)

lemma post_accepted:
  "\<not> rejected conv body \<Longrightarrow>
     post_contribution conv st body =
       (let nextState' =
              update_payPeriodsPerYear conv body
                (update_currentBalance conv body
                  (update_ytdContribution conv body
                    (update_salary conv body
                      (update_age conv body
                        (st\<lparr> contributionType :=
                               (case body ''contributionType'' of Some (JString t) \<Rightarrow> t
                                | _ \<Rightarrow> contributionType st),
                             contributionValue := js_Number conv (body ''contributionValue'') \<rparr>)))))
        in (nextState', Status200 nextState'))"
  unfolding rejected_def post_contribution_def Let_def
  by (simp split: if_splits)

text \<open>
  C9. \<open>POST /api/contribution\<close> answers with status 400 exactly when the type is not
  \<open>percent\<close> or \<open>dollar\<close>, the value is not finite or is negative, a percent value
  exceeds 50, or a dollar value exceeds 5000 (\<open>rejected\<close>); and then the stored state
  is the one before the request.
\<close>

theorem post_reject_atomic:
  "((\<exists>msg. snd (post_contribution conv st body) = Status400 msg) \<longleftrightarrow> rejected conv body)
   \<and> (rejected conv body \<longrightarrow> fst (post_contribution conv st body) = st)"
proof (cases "rejected conv body")
  case True
  then obtain msg where "post_contribution conv st body = (st, Status400 msg)"
    using post_rejected by blast
  then show ?thesis using True by simp
next
  case False
  then show ?thesis using post_accepted [OF False, of st] by (simp add: Let_def)
qed

theorem post_reject_atomic_witness:
  "rejected (\<lambda>w. NaN)
     [''contributionType'' \<mapsto> JString ''dollar'', ''contributionValue'' \<mapsto> JNumber (Fin 6000),
      ''salary'' \<mapsto> JNumber (Fin 90000)]
   \<and> (\<exists>msg. snd (post_contribution (\<lambda>w. NaN) initialState
         [''contributionType'' \<mapsto> JString ''dollar'', ''contributionValue'' \<mapsto> JNumber (Fin 6000),
          ''salary'' \<mapsto> JNumber (Fin 90000)]) = Status400 msg)
   \<and> fst (post_contribution (\<lambda>w. NaN) initialState
         [''contributionType'' \<mapsto> JString ''dollar'', ''contributionValue'' \<mapsto> JNumber (Fin 6000),
          ''salary'' \<mapsto> JNumber (Fin 90000)]) = initialState"
proof -
  have r: "rejected (\<lambda>w. NaN)
     [''contributionType'' \<mapsto> JString ''dollar'', ''contributionValue'' \<mapsto> JNumber (Fin 6000),
      ''salary'' \<mapsto> JNumber (Fin 90000)]"
    by (simp add: rejected_def js_Number_def isFinite_def js_arith)
  show ?thesis
    using r post_reject_atomic [of "\<lambda>w. NaN" initialState
        "[''contributionType'' \<mapsto> JString ''dollar'', ''contributionValue'' \<mapsto> JNumber (Fin 6000),
          ''salary'' \<mapsto> JNumber (Fin 90000)]"]
    by blast
qed

lemma update_age_wf: "well_formed s \<Longrightarrow> well_formed (update_age conv body s)"
  by (simp add: update_age_def well_formed_def Let_def split: option.splits)

lemma update_salary_wf: "well_formed s \<Longrightarrow> well_formed (update_salary conv body s)"
  by (simp add: update_salary_def well_formed_def Let_def split: option.splits)

lemma update_ytdContribution_wf:
  "well_formed s \<Longrightarrow> well_formed (update_ytdContribution conv body s)"
  by (simp add: update_ytdContribution_def well_formed_def Let_def split: option.splits)

lemma update_currentBalance_wf:
  "well_formed s \<Longrightarrow> well_formed (update_currentBalance conv body s)"
  by (simp add: update_currentBalance_def well_formed_def Let_def split: option.splits)

lemma update_payPeriodsPerYear_wf:
  "well_formed s \<Longrightarrow> well_formed (update_payPeriodsPerYear conv body s)"
  by (simp add: update_payPeriodsPerYear_def well_formed_def Let_def split: option.splits)

lemma selection_wf:
  assumes "well_formed st" "\<not> rejected conv body"
  shows "well_formed
           (st\<lparr> contributionType :=
                  (case body ''contributionType'' of Some (JString t) \<Rightarrow> t
                   | _ \<Rightarrow> contributionType st),
                contributionValue := js_Number conv (body ''contributionValue'') \<rparr>)"
proof -
  let ?v = "js_Number conv (body ''contributionValue'')"
  have fin: "isFinite ?v" and nonneg: "Fin 0 \<le> ?v"
    using assms(2) by (auto simp: rejected_def Let_def isFinite_le_less)
  consider "body ''contributionType'' = Some (JString ''percent'')"
    | "body ''contributionType'' = Some (JString ''dollar'')"
    using assms(2) by (auto simp: rejected_def Let_def)
  then show ?thesis
  proof cases
    case 1
    then have "?v \<le> Fin 50"
      using assms(2) fin by (auto simp: rejected_def Let_def isFinite_le_less)
    then show ?thesis
      using assms(1) fin nonneg 1 by (simp add: well_formed_def)
  next
    case 2
    then have "?v \<le> Fin 5000"
      using assms(2) fin by (auto simp: rejected_def Let_def isFinite_le_less)
    then show ?thesis
      using assms(1) fin nonneg 2 by (simp add: well_formed_def)
  qed
qed

lemma post_wf:
  assumes "well_formed st"
  shows "well_formed (fst (post_contribution conv st body))"
proof (cases "rejected conv body")
  case True
  then show ?thesis using post_rejected [OF True, of st] assms by auto
next
  case False
  show ?thesis
    unfolding post_accepted [OF False] Let_def fst_conv
    by (intro update_payPeriodsPerYear_wf update_currentBalance_wf update_ytdContribution_wf
          update_salary_wf update_age_wf selection_wf assms False)
qed

lemma initial_wf: "well_formed initialState"
  by (simp add: well_formed_def initialState_def isFinite_def js_arith)

lemma update_age_frame [simp]:
  "salary (update_age conv body s) = salary s"
  "ytdContribution (update_age conv body s) = ytdContribution s"
  "currentBalance (update_age conv body s) = currentBalance s"
  "payPeriodsPerYear (update_age conv body s) = payPeriodsPerYear s"
  by (simp_all add: update_age_def Let_def split: option.splits)

lemma update_salary_frame [simp]:
  "age (update_salary conv body s) = age s"
  "ytdContribution (update_salary conv body s) = ytdContribution s"
  "currentBalance (update_salary conv body s) = currentBalance s"
  "payPeriodsPerYear (update_salary conv body s) = payPeriodsPerYear s"
  by (simp_all add: update_salary_def Let_def split: option.splits)

lemma update_ytdContribution_frame [simp]:
  "age (update_ytdContribution conv body s) = age s"
  "salary (update_ytdContribution conv body s) = salary s"
  "currentBalance (update_ytdContribution conv body s) = currentBalance s"
  "payPeriodsPerYear (update_ytdContribution conv body s) = payPeriodsPerYear s"
  by (simp_all add: update_ytdContribution_def Let_def split: option.splits)

lemma update_currentBalance_frame [simp]:
  "age (update_currentBalance conv body s) = age s"
  "salary (update_currentBalance conv body s) = salary s"
  "ytdContribution (update_currentBalance conv body s) = ytdContribution s"
  "payPeriodsPerYear (update_currentBalance conv body s) = payPeriodsPerYear s"
  by (simp_all add: update_currentBalance_def Let_def split: option.splits)

lemma update_payPeriodsPerYear_frame [simp]:
  "age (update_payPeriodsPerYear conv body s) = age s"
  "salary (update_payPeriodsPerYear conv body s) = salary s"
  "ytdContribution (update_payPeriodsPerYear conv body s) = ytdContribution s"
  "currentBalance (update_payPeriodsPerYear conv body s) = currentBalance s"
  by (simp_all add: update_payPeriodsPerYear_def Let_def split: option.splits)

lemma post_keeps_age:
  assumes "body ''age'' = None \<or> \<not> (isFinite (js_Number conv (body ''age''))
      \<and> Fin 0 < js_Number conv (body ''age'') \<and> js_Number conv (body ''age'') < Fin 100)"
  shows "age (fst (post_contribution conv st body)) = age st"
proof (cases "rejected conv body")
  case True
  then show ?thesis using post_rejected [OF True, of st] by auto
next
  case False
  show ?thesis
    unfolding post_accepted [OF False] Let_def fst_conv
    using assms by (auto simp: update_age_def Let_def split: option.splits)
qed

lemma post_keeps_salary:
  assumes "body ''salary'' = None \<or> \<not> (isFinite (js_Number conv (body ''salary''))
      \<and> Fin 0 \<le> js_Number conv (body ''salary''))"
  shows "salary (fst (post_contribution conv st body)) = salary st"
proof (cases "rejected conv body")
  case True
  then show ?thesis using post_rejected [OF True, of st] by auto
next
  case False
  show ?thesis
    unfolding post_accepted [OF False] Let_def fst_conv
    using assms by (auto simp: update_salary_def Let_def split: option.splits)
qed

lemma post_keeps_ytdContribution:
  assumes "body ''ytdContribution'' = None \<or> \<not> (isFinite (js_Number conv (body ''ytdContribution''))
      \<and> Fin 0 \<le> js_Number conv (body ''ytdContribution''))"
  shows "ytdContribution (fst (post_contribution conv st body)) = ytdContribution st"
proof (cases "rejected conv body")
  case True
  then show ?thesis using post_rejected [OF True, of st] by auto
next
  case False
  show ?thesis
    unfolding post_accepted [OF False] Let_def fst_conv
    using assms by (auto simp: update_ytdContribution_def Let_def split: option.splits)
qed

lemma post_keeps_currentBalance:
  assumes "body ''currentBalance'' = None \<or> \<not> (isFinite (js_Number conv (body ''currentBalance''))
      \<and> Fin 0 \<le> js_Number conv (body ''currentBalance''))"
  shows "currentBalance (fst (post_contribution conv st body)) = currentBalance st"
proof (cases "rejected conv body")
  case True
  then show ?thesis using post_rejected [OF True, of st] by auto
next
  case False
  show ?thesis
    unfolding post_accepted [OF False] Let_def fst_conv
    using assms by (auto simp: update_currentBalance_def Let_def split: option.splits)
qed

lemma post_keeps_payPeriodsPerYear:
  assumes "body ''payPeriodsPerYear'' = None
      \<or> \<not> (isFinite (js_Number conv (body ''payPeriodsPerYear''))
      \<and> Fin 0 < js_Number conv (body ''payPeriodsPerYear'')
      \<and> js_Number conv (body ''payPeriodsPerYear'') \<le> Fin 52)"
  shows "payPeriodsPerYear (fst (post_contribution conv st body)) = payPeriodsPerYear st"
proof (cases "rejected conv body")
  case True
  then show ?thesis using post_rejected [OF True, of st] by auto
next
  case False
  show ?thesis
    unfolding post_accepted [OF False] Let_def fst_conv
    using assms by (auto simp: update_payPeriodsPerYear_def Let_def split: option.splits)
qed



end
